theory Spec2Isabelle
  imports Complex_Main "HOL-Library.Log_Nat"
begin

section \<open>Cohort Scheduler\<close>

text \<open>
  \<^verbatim>\<open>Array.prototype.slice(start, end)\<close> for non-negative integer arguments: the elements at
  positions \<open>start \<le> j < end\<close>, both bounds clamped to the length; empty when
  \<open>end \<le> start\<close>.
\<close>

definition slice :: "'a list \<Rightarrow> nat \<Rightarrow> nat \<Rightarrow> 'a list" where
  "slice xs s e = take (e - s) (drop s xs)"

text \<open>
  \<^verbatim>\<open>Math.ceil(a / b)\<close> on non-negative integers, \<open>b > 0\<close> (the quotient of two list-sized
  integers is far inside the range where the double division followed by \<open>ceil\<close> is exact).
\<close>

definition ceilDiv :: "nat \<Rightarrow> nat \<Rightarrow> nat" where
  "ceilDiv a b = (a + b - 1) div b"

text \<open>
  main.js, \<^verbatim>\<open>getCitiesForCohort(allCities, cohortIndex, cohortCount)\<close>.
  With \<open>cohortCount = 0\<close> the source computes \<open>citiesPerCohort = Infinity\<close> (or \<open>NaN\<close> on
  the empty list), and \<open>slice\<close> then returns the empty array; the caller passes
  \<open>Math.max(1, \<dots>)\<close>.
\<close>

definition citiesPerCohort :: "'a list \<Rightarrow> nat \<Rightarrow> nat" where
  "citiesPerCohort allCities cohortCount = ceilDiv (length allCities) cohortCount"

definition startIndex :: "'a list \<Rightarrow> nat \<Rightarrow> nat \<Rightarrow> nat" where
  "startIndex allCities cohortIndex cohortCount =
     cohortIndex * citiesPerCohort allCities cohortCount"

definition endIndex :: "'a list \<Rightarrow> nat \<Rightarrow> nat \<Rightarrow> nat" where
  "endIndex allCities cohortIndex cohortCount =
     min (startIndex allCities cohortIndex cohortCount + citiesPerCohort allCities cohortCount)
         (length allCities)"

definition getCitiesForCohort :: "'a list \<Rightarrow> nat \<Rightarrow> nat \<Rightarrow> 'a list" where
  "getCitiesForCohort allCities cohortIndex cohortCount =
     (if cohortCount = 0 then []
      else slice allCities (startIndex allCities cohortIndex cohortCount)
                           (endIndex allCities cohortIndex cohortCount))"

section \<open>Phone normalisation\<close>

text \<open>
  JavaScript strings are modelled as \<^typ>\<open>string\<close>. The class \<^verbatim>\<open>\d\<close> of a regular expression
  without the \<^verbatim>\<open>u\<close> flag is the ten ASCII digits; \<^verbatim>\<open>\D\<close> is every other character.
\<close>

definition isDigit :: "char \<Rightarrow> bool" where
  "isDigit c = (c \<in> set ''0123456789'')"

text \<open>
  helpers.js, \<^verbatim>\<open>normalizePhone(phone)\<close>. The only falsy string is the empty one, so
  \<^verbatim>\<open>if (!phone) return ''\<close> is the test for the empty string.
\<close>

definition normalizePhone :: "string \<Rightarrow> string" where
  "normalizePhone phone =
     (if phone = [] then []
      else
        let digits = filter isDigit phone;
            digits = (if length digits = 10 then CHR ''1'' # digits else digits)
        in if length digits = 11 \<and> digits ! 0 = CHR ''1'' then CHR ''+'' # digits
           else if take 2 digits = ''00'' then CHR ''+'' # drop 2 digits
           else CHR ''+'' # digits)"

text \<open>A string that starts with \<open>+\<close> and has only digits after it.\<close>

definition isPlusDigits :: "string \<Rightarrow> bool" where
  "isPlusDigits s = (case s of [] \<Rightarrow> False | c # ds \<Rightarrow> c = CHR ''+'' \<and> list_all isDigit ds)"

section \<open>Double-precision arithmetic\<close>

text \<open>
  A JavaScript number is an IEEE 754 double. The finite doubles are the rationals
  \<open>m * 2 ^ k\<close> with a significand \<open>m\<close> of at most 53 bits, and every arithmetic operation
  returns the double that is nearest to the exact result, a tie going to the even
  significand. The exponent range is taken as unbounded: the cost estimates of a call
  counter below \<open>2 ^ 53\<close> are far from overflow and from the subnormal numbers.

  \<open>expo x\<close> is, for a positive \<open>x\<close>, the exponent \<open>e\<close> with \<open>2 ^ e \<le> x < 2 ^ (e + 1)\<close>:
  the difference of the bit lengths of numerator and denominator, or one less.
\<close>

definition expo :: "rat \<Rightarrow> int" where
  "expo x =
     (case quotient_of x of
        (p, q) \<Rightarrow> let k = bitlen p - bitlen q in if 2 powi k \<le> x then k else k - 1)"

text \<open>The integer nearest to \<open>q\<close>, a tie going to the even one.\<close>

definition roundHalfEven :: "rat \<Rightarrow> int" where
  "roundHalfEven q =
     (let f = \<lfloor>q\<rfloor>; r = q - of_int f
      in if r < 1 / 2 then f else if 1 / 2 < r then f + 1 else if even f then f else f + 1)"

text \<open>
  The double nearest to \<open>x\<close>: \<open>x\<close> is divided by the unit in the last place
  \<open>2 ^ (e - 52)\<close> of its binade, which takes it into \<open>[2 ^ 52, 2 ^ 53)\<close>, rounded to an
  integer and multiplied back.
\<close>

definition toDouble :: "rat \<Rightarrow> rat" where
  "toDouble x =
     (if x = 0 then 0
      else let a = \<bar>x\<bar>; u = 2 powi (expo a - 52)
           in sgn x * of_int (roundHalfEven (a / u)) * u)"

section \<open>Cost Guard\<close>

text \<open>
  main.js, \<^verbatim>\<open>class APIRateLimiter\<close>. The costs are doubles (rationals, every operation
  rounded by \<^const>\<open>toDouble\<close>); the call counter is a natural number and the millisecond
  clock an integer, both exact as doubles far beyond the length of any run.
\<close>

record APIRateLimiter =
  apiCalls :: nat
  lastCallTime :: int
  maxDailyCost :: rat
  minInterval :: int
  startTime :: int

text \<open>The constructor; \<open>now\<close> is the reading of \<^verbatim>\<open>Date.now()\<close>.\<close>

definition newAPIRateLimiter :: "rat \<Rightarrow> int \<Rightarrow> APIRateLimiter" where
  "newAPIRateLimiter maxCost now =
     \<lparr>apiCalls = 0, lastCallTime = 0, maxDailyCost = maxCost, minInterval = 100,
      startTime = now\<rparr>"

text \<open>
  \<^verbatim>\<open>estimateCost()\<close>. The literals \<^verbatim>\<open>0.6\<close>, \<^verbatim>\<open>0.35\<close> and \<^verbatim>\<open>0.05\<close> are the doubles
  nearest to \<open>6/10\<close>, \<open>35/100\<close> and \<open>5/100\<close>; \<open>1000\<close>, \<open>32\<close>, \<open>17\<close> and \<open>5\<close> are
  doubles themselves. Every product, quotient and sum is rounded, in the order in which
  the source computes them.
\<close>

definition estimateCost :: "APIRateLimiter \<Rightarrow> rat" where
  "estimateCost rl =
     (let n = of_nat (apiCalls rl);
          textSearchCalls = toDouble (n * toDouble (6 / 10));
          placeDetailsCalls = toDouble (n * toDouble (35 / 100));
          geocodingCalls = toDouble (n * toDouble (5 / 100));
          textSearchCost = toDouble (toDouble (textSearchCalls / 1000) * 32);
          placeDetailsCost = toDouble (toDouble (placeDetailsCalls / 1000) * 17);
          geocodingCost = toDouble (toDouble (geocodingCalls / 1000) * 5)
      in toDouble (toDouble (textSearchCost + placeDetailsCost) + geocodingCost))"

text \<open>Everything the pipeline can throw.\<close>

datatype error =
    CostLimitReached
  | InputRequired
  | LocationNotFound
  | NullRateLimiter
  | RequestFailed
  | NoReturn

text \<open>
  \<^verbatim>\<open>sleep(minInterval - timeSinceLastCall)\<close>: the delay \<^verbatim>\<open>checkLimits\<close> asks for when the
  clock reads \<open>now\<close> on entry (0 when it does not sleep).
\<close>

definition sleepFor :: "int \<Rightarrow> APIRateLimiter \<Rightarrow> int" where
  "sleepFor now rl =
     (let timeSinceLastCall = now - lastCallTime rl
      in if timeSinceLastCall < minInterval rl then minInterval rl - timeSinceLastCall else 0)"

text \<open>
  \<^verbatim>\<open>checkLimits()\<close>. \<open>now\<close> is the first reading of the clock and \<open>now'\<close> the second one,
  taken after the optional sleep. The throw leaves the object as it was; the usage log
  line written every 100 calls changes no state.
\<close>

definition checkLimits :: "int \<Rightarrow> int \<Rightarrow> APIRateLimiter \<Rightarrow> error + APIRateLimiter" where
  "checkLimits now now' rl =
     (let currentCost = estimateCost rl
      in if currentCost \<ge> maxDailyCost rl then Inl CostLimitReached
         else Inr (rl\<lparr>lastCallTime := now', apiCalls := apiCalls rl + 1\<rparr>))"

text \<open>
  A sequence of \<^verbatim>\<open>checkLimits\<close> calls on one limiter object, each with its two clock
  readings: the outcome of every call, a failed call leaving the object for the next one.
\<close>

fun checkLimitsCalls :: "(int \<times> int) list \<Rightarrow> APIRateLimiter \<Rightarrow> (error + APIRateLimiter) list" where
  "checkLimitsCalls [] rl = []"
| "checkLimitsCalls ((now, now') # ts) rl =
     (case checkLimits now now' rl of
        Inl e \<Rightarrow> Inl e # checkLimitsCalls ts rl
      | Inr rl' \<Rightarrow> Inr rl' # checkLimitsCalls ts rl')"

section \<open>Geo Partitioner\<close>

text \<open>
  main.js, \<^verbatim>\<open>generateHexagonalGeoboxCenters(centerLat, centerLng, radiusMeters, boxRadius)\<close>,
  over the reals. A center is the pair (lat, lng).
\<close>

definition earthRadius :: real where
  "earthRadius = 6378137"

definition ringLat :: "real \<Rightarrow> nat \<Rightarrow> real" where
  "ringLat boxRadius ring = (real ring * boxRadius) / earthRadius * (180 / pi)"

text \<open>
  The longitude offset divides by the cosine of the latitude. Over the reals the cosine
  is zero at the poles (\<open>centerLat = 90 + 180 k\<close>), where the quotient has no
  value that a real number could stand for (division by zero is 0 in HOL; the code, whose
  \<^verbatim>\<open>Math.cos\<close> is never exactly zero there, gets a huge offset). Whatever is stated about
  longitudes is stated for \<open>cos (pi * centerLat / 180) \<noteq> 0\<close> only.
\<close>

definition ringLng :: "real \<Rightarrow> real \<Rightarrow> nat \<Rightarrow> real" where
  "ringLng centerLat boxRadius ring =
     (real ring * boxRadius) / (earthRadius * cos (pi * centerLat / 180)) * (180 / pi)"

text \<open>The body of the inner loop: the point \<open>i\<close> of ring \<open>ring\<close>.\<close>

definition ringPoint :: "real \<Rightarrow> real \<Rightarrow> real \<Rightarrow> nat \<Rightarrow> nat \<Rightarrow> real \<times> real" where
  "ringPoint centerLat centerLng boxRadius ring i =
     (let angle = (real i * pi) / 3;
          lat = centerLat + ringLat boxRadius ring * cos angle;
          lng = centerLng + ringLng centerLat boxRadius ring * sin angle
      in (lat, lng))"

text \<open>The inner loop \<^verbatim>\<open>for (let i = 0; i < 6; i++)\<close>.\<close>

definition ringPoints :: "real \<Rightarrow> real \<Rightarrow> real \<Rightarrow> nat \<Rightarrow> (real \<times> real) list" where
  "ringPoints centerLat centerLng boxRadius ring =
     map (ringPoint centerLat centerLng boxRadius ring) [0..<6]"

text \<open>
  \<^verbatim>\<open>numRings = Math.ceil(radiusMeters / boxRadius)\<close>; the loop
  \<^verbatim>\<open>for (let ring = 1; ring <= numRings; ring++)\<close> runs \<open>nat numRings\<close> times. With
  \<open>boxRadius = 0\<close> and a positive radius the quotient is \<open>Infinity\<close> and the loop never
  ends: the function returns nothing (\<open>None\<close>). With \<open>boxRadius = 0\<close> and a radius that
  is zero or negative the quotient is \<open>NaN\<close> or \<open>-Infinity\<close> and the loop does not run.
\<close>

definition numRings :: "real \<Rightarrow> real \<Rightarrow> nat" where
  "numRings radiusMeters boxRadius =
     (if boxRadius = 0 then 0 else nat \<lceil>radiusMeters / boxRadius\<rceil>)"

definition generateHexagonalGeoboxCenters ::
    "real \<Rightarrow> real \<Rightarrow> real \<Rightarrow> real \<Rightarrow> (real \<times> real) list option" where
  "generateHexagonalGeoboxCenters centerLat centerLng radiusMeters boxRadius =
     (if boxRadius = 0 \<and> radiusMeters > 0 then None
      else Some ((centerLat, centerLng)
                 # concat (map (ringPoints centerLat centerLng boxRadius)
                               [1..<Suc (numRings radiusMeters boxRadius)])))"

text \<open>
  main.js, in \<^verbatim>\<open>Actor.main\<close>: the cell radius (\<^verbatim>\<open>boxRadius\<close>) and the cells searched
  around one center.
\<close>

definition cellCeiling :: real where
  "cellCeiling = 5000"

definition boxRadiusOf :: "real \<Rightarrow> real" where
  "boxRadiusOf radiusMeters = (if radiusMeters > cellCeiling then cellCeiling else radiusMeters)"

definition geoboxCentersOf :: "real \<Rightarrow> real \<Rightarrow> real \<Rightarrow> (real \<times> real) list option" where
  "geoboxCentersOf lat lng radiusMeters =
     (if radiusMeters > cellCeiling
      then generateHexagonalGeoboxCenters lat lng radiusMeters (boxRadiusOf radiusMeters)
      else Some [(lat, lng)])"

section \<open>Strings and regular expressions\<close>

text \<open>
  The string functions of JavaScript that the contact filter uses, on \<^typ>\<open>string\<close>. Case
  mapping is the ASCII one: the filter only looks at an address after the format check has
  restricted it to ASCII letters, digits and \<open>. _ - @\<close>.
\<close>

definition isLower :: "char \<Rightarrow> bool" where
  "isLower c = (c \<in> set ''abcdefghijklmnopqrstuvwxyz'')"

definition isUpper :: "char \<Rightarrow> bool" where
  "isUpper c = (c \<in> set ''ABCDEFGHIJKLMNOPQRSTUVWXYZ'')"

definition isAlpha :: "char \<Rightarrow> bool" where
  "isAlpha c = (isLower c \<or> isUpper c)"

definition isAlnum :: "char \<Rightarrow> bool" where
  "isAlnum c = (isAlpha c \<or> isDigit c)"

definition isLowerAlnum :: "char \<Rightarrow> bool" where
  "isLowerAlnum c = (isLower c \<or> isDigit c)"

definition isHex :: "char \<Rightarrow> bool" where
  "isHex c = (c \<in> set ''abcdefABCDEF0123456789'')"

definition toLowerChar :: "char \<Rightarrow> char" where
  "toLowerChar c =
     (case map_of (zip ''ABCDEFGHIJKLMNOPQRSTUVWXYZ'' ''abcdefghijklmnopqrstuvwxyz'') c of
        Some l \<Rightarrow> l
      | None \<Rightarrow> c)"

definition toLowerCase :: "string \<Rightarrow> string" where
  "toLowerCase s = map toLowerChar s"

definition startsWith :: "string \<Rightarrow> string \<Rightarrow> bool" where
  "startsWith s p = (take (length p) s = p)"

definition endsWith :: "string \<Rightarrow> string \<Rightarrow> bool" where
  "endsWith s p = (length p \<le> length s \<and> drop (length s - length p) s = p)"

text \<open>All suffixes of a string, the longest first, the empty one last.\<close>

fun tails :: "'a list \<Rightarrow> 'a list list" where
  "tails [] = [[]]"
| "tails (x # xs) = (x # xs) # tails xs"

definition includesStr :: "string \<Rightarrow> string \<Rightarrow> bool" where
  "includesStr s sub = list_ex (\<lambda>t. startsWith t sub) (tails s)"

text \<open>\<^verbatim>\<open>s.split(c)\<close> for a one-character separator: never the empty list.\<close>

fun splitStr :: "char \<Rightarrow> string \<Rightarrow> string list" where
  "splitStr c [] = [[]]"
| "splitStr c (x # xs) =
     (if x = c then [] # splitStr c xs
      else (case splitStr c xs of
              [] \<Rightarrow> [[x]]
            | p # ps \<Rightarrow> (x # p) # ps))"

text \<open>
  The regular expressions of the filter: literals, alternatives of literals, a character
  class with a repetition count \<open>{lo, hi}\<close> (\<open>None\<close>: no upper bound), sequence and option.
  \<open>rests r s\<close> lists what is left of \<open>s\<close> after every way of matching \<open>r\<close> at its start.
\<close>

datatype rx =
    Lit string
  | OneOf "string list"
  | Cls "char \<Rightarrow> bool" nat "nat option"
  | Seq rx rx
  | Opt rx

fun rests :: "rx \<Rightarrow> string \<Rightarrow> string list" where
  "rests (Lit l) s = (if startsWith s l then [drop (length l) s] else [])"
| "rests (OneOf ls) s = concat (map (\<lambda>l. if startsWith s l then [drop (length l) s] else []) ls)"
| "rests (Cls p lo hi) s =
     (let m = length (takeWhile p s);
          top = (case hi of None \<Rightarrow> m | Some h \<Rightarrow> min h m)
      in map (\<lambda>n. drop n s) [lo..<Suc top])"
| "rests (Seq a b) s = concat (map (rests b) (rests a s))"
| "rests (Opt a) s = s # rests a s"

fun seqs :: "rx list \<Rightarrow> rx" where
  "seqs [] = Lit []"
| "seqs [r] = r"
| "seqs (r # rs) = Seq r (seqs rs)"

text \<open>\<^verbatim>\<open>/^r$/.test(s)\<close>, \<^verbatim>\<open>/^r/.test(s)\<close> and \<^verbatim>\<open>/r$/.test(s)\<close>.\<close>

definition matchesWhole :: "rx \<Rightarrow> string \<Rightarrow> bool" where
  "matchesWhole r s = ([] \<in> set (rests r s))"

definition matchesStart :: "rx \<Rightarrow> string \<Rightarrow> bool" where
  "matchesStart r s = (rests r s \<noteq> [])"

definition matchesEnd :: "rx \<Rightarrow> string \<Rightarrow> bool" where
  "matchesEnd r s = list_ex (matchesWhole r) (tails s)"

section \<open>Contact filter\<close>

text \<open>helpers.js, \<^verbatim>\<open>EMAIL_REGEX\<close> and \<^verbatim>\<open>isValidEmailFormat\<close>.\<close>

definition isLocalChar :: "char \<Rightarrow> bool" where
  "isLocalChar c = (isAlnum c \<or> c \<in> set ''._-'')"

definition isDomainChar :: "char \<Rightarrow> bool" where
  "isDomainChar c = (isAlnum c \<or> c \<in> set ''.-'')"

definition EMAIL_REGEX :: rx where
  "EMAIL_REGEX =
     seqs [Cls isAlnum 1 (Some 1),
           Opt (Seq (Cls isLocalChar 0 None) (Cls isAlnum 1 (Some 1))),
           Lit ''@'',
           Cls isAlnum 1 (Some 1),
           Opt (Seq (Cls isDomainChar 0 None) (Cls isAlnum 1 (Some 1))),
           Lit ''.'',
           Cls isAlpha 2 None]"

definition isValidEmailFormat :: "string \<Rightarrow> bool" where
  "isValidEmailFormat email = matchesWhole EMAIL_REGEX email"

definition DISPOSABLE_DOMAINS :: "string list" where
  "DISPOSABLE_DOMAINS =
     [''10minutemail.com'', ''guerrillamail.com'', ''mailinator.com'', ''tempmail.org'',
      ''throwaway.email'', ''yopmail.com'', ''temp-mail.org'', ''sharklasers.com'',
      ''getairmail.com'', ''mailnesia.com'', ''tempr.email'', ''tmpmail.org'',
      ''maildrop.cc'', ''spam4.me'', ''fakeinbox.com'', ''mailmetrash.com'',
      ''trashmail.com'', ''mailnull.com'', ''spamspot.com'', ''spam.la'',
      ''example.com'', ''example.org'', ''test.com'', ''demo.com'', ''sample.com'',
      ''placeholder.com'', ''domain.com'', ''yourdomain.com'', ''company.com'',
      ''mail.com'', ''email.com'', ''fakemail.com'']"

definition isDisposableDomain :: "string \<Rightarrow> bool" where
  "isDisposableDomain domain =
     list_ex (\<lambda>disposable. includesStr (toLowerCase domain) (toLowerCase disposable))
             DISPOSABLE_DOMAINS"

text \<open>The same test on a domain that is already in lower case.\<close>

definition disposableIn :: "string \<Rightarrow> bool" where
  "disposableIn d = list_ex (includesStr d) DISPOSABLE_DOMAINS"

text \<open>
  \<^verbatim>\<open>const [local, domain] = email.toLowerCase().split('@')\<close>: the first piece, and the
  second one when there is one (\<^verbatim>\<open>undefined\<close> otherwise).
\<close>

definition localPart :: "string \<Rightarrow> string" where
  "localPart email =
     (case splitStr CHR ''@'' (toLowerCase email) of [] \<Rightarrow> [] | l # _ \<Rightarrow> l)"

definition domainPart :: "string \<Rightarrow> string option" where
  "domainPart email =
     (case splitStr CHR ''@'' (toLowerCase email) of _ # d # _ \<Rightarrow> Some d | _ \<Rightarrow> None)"

text \<open>helpers.js, \<^verbatim>\<open>isBusinessEmailPattern(email)\<close>.\<close>

definition lowers :: rx where
  "lowers = Cls isLower 1 None"

definition businessTlds :: "string list" where
  "businessTlds = [''com'', ''org'', ''net'', ''co'', ''biz'', ''io'', ''ai'', ''app'']"

definition hasBusinessPattern :: "string \<Rightarrow> bool" where
  "hasBusinessPattern email =
     (matchesStart (seqs [lowers, Lit ''.'', lowers, Lit ''@'']) email
      \<or> matchesWhole (seqs [lowers, Lit ''@'', lowers, Lit ''.'', OneOf businessTlds]) email
      \<or> matchesWhole (seqs [lowers, Lit ''@'', lowers, Cls isLowerAlnum 0 None, Lit ''.'',
                             OneOf businessTlds]) email
      \<or> matchesWhole (seqs [lowers, Lit ''@'', lowers, Lit ''.'',
                             OneOf [''co'', ''biz'', ''io'', ''ai'', ''app'']]) email
      \<or> matchesWhole (seqs [lowers, Lit ''@'', lowers, Lit ''.'',
                             OneOf [''com'', ''org'', ''net'']]) email)"

definition businessDomains :: "string list" where
  "businessDomains =
     [''company.com'', ''business.com'', ''corp.com'', ''inc.com'', ''llc.com'',
      ''enterprise.com'', ''firm.com'', ''group.com'', ''team.com'', ''studio.com'',
      ''clinic.com'', ''salon.com'', ''spa.com'', ''gym.com'', ''fitness.com'',
      ''restaurant.com'', ''cafe.com'', ''bar.com'', ''pub.com'', ''shop.com'',
      ''store.com'', ''market.com'', ''office.com'', ''agency.com'', ''consulting.com'']"

text \<open>
  \<^verbatim>\<open>/^(?!.*(gmail|yahoo|...|me|mac)).*\.(com|org|net|co|biz|io|ai|app)$/\<close>: the dot of a
  regular expression does not match a line terminator, so the domain has none, contains
  none of the names of the lookahead, and ends with a dot and one of the endings.
\<close>

definition personalNames :: "string list" where
  "personalNames =
     [''gmail'', ''yahoo'', ''outlook'', ''hotmail'', ''aol'', ''icloud'', ''protonmail'',
      ''zoho'', ''yandex'', ''mail.ru'', ''live'', ''msn'', ''me'', ''mac'']"

definition isLineTerminator :: "char \<Rightarrow> bool" where
  "isLineTerminator c = (c = CHR 0x0A \<or> c = CHR 0x0D)"

definition hasBusinessDomainPattern :: "string \<Rightarrow> bool" where
  "hasBusinessDomainPattern domain =
     (\<not> list_ex isLineTerminator domain
      \<and> \<not> list_ex (includesStr domain) personalNames
      \<and> matchesEnd (Seq (Lit ''.'') (OneOf businessTlds)) domain)"

definition PERSONAL_PROVIDERS :: "string list" where
  "PERSONAL_PROVIDERS =
     [''gmail.com'', ''yahoo.com'', ''outlook.com'', ''hotmail.com'', ''aol.com'',
      ''icloud.com'', ''protonmail.com'', ''zoho.com'', ''yandex.com'', ''mail.ru'',
      ''live.com'', ''msn.com'', ''me.com'', ''mac.com'']"

text \<open>
  The result is \<open>None\<close> where the source throws a \<^verbatim>\<open>TypeError\<close>: on an address without
  \<open>@\<close> the domain is \<^verbatim>\<open>undefined\<close> and \<^verbatim>\<open>domain.includes\<close> fails. The local list
  \<^verbatim>\<open>personalProviders\<close> of the function has the entries of \<^verbatim>\<open>PERSONAL_PROVIDERS\<close>.
\<close>

definition isBusinessEmailPattern :: "string \<Rightarrow> bool option" where
  "isBusinessEmailPattern email =
     (case domainPart email of
        None \<Rightarrow> None
      | Some domain \<Rightarrow>
          let hasPattern = hasBusinessPattern email;
              hasBusinessDomain = list_ex (includesStr domain) businessDomains;
              hasDomainPattern = hasBusinessDomainPattern domain;
              isPersonalProvider = (domain \<in> set PERSONAL_PROVIDERS)
          in Some (\<not> isPersonalProvider
                   \<and> (hasPattern \<or> hasBusinessDomain \<or> hasDomainPattern)))"

definition AGGREGATOR_DOMAINS :: "string list" where
  "AGGREGATOR_DOMAINS =
     [''weomedia.com'', ''wixpress.com'', ''sentry-next.wixpress.com'', ''sentry.wixpress.com'',
      ''sentry.io'', ''wordpress.com'', ''godaddy.com'', ''mailchimp.com'', ''hubspot.com'',
      ''squareup.com'', ''weebly.com'', ''shopify.com'', ''squarespace.com'',
      ''google-analytics.com'', ''googletagmanager.com'']"

text \<open>helpers.js, \<^verbatim>\<open>looksLikePersonNameLocalPart(local)\<close>.\<close>

definition nameWord :: rx where
  "nameWord = Cls isLower 2 (Some 15)"

definition letter :: rx where
  "letter = Cls isLower 1 (Some 1)"

definition looksLikePersonNameLocalPart :: "string \<Rightarrow> bool" where
  "looksLikePersonNameLocalPart local =
     (matchesWhole nameWord local
      \<or> matchesWhole (seqs [nameWord, Lit ''.'', nameWord]) local
      \<or> matchesWhole (seqs [nameWord, nameWord]) local
      \<or> matchesWhole (seqs [letter, Lit ''.'', nameWord]) local
      \<or> matchesWhole (seqs [nameWord, Lit ''.'', letter, Lit ''.'']) local
      \<or> matchesWhole (seqs [nameWord, Lit ''_'', nameWord]) local
      \<or> matchesWhole (seqs [nameWord, Lit ''-'', nameWord]) local
      \<or> matchesWhole (seqs [nameWord, Cls isDigit 1 (Some 3)]) local)"

text \<open>
  helpers.js, \<^verbatim>\<open>filterBusinessEmails(emailList, options)\<close>. The lookup of the MX record
  (\<^verbatim>\<open>validateDomainDNS\<close>) is the function \<open>mx\<close> of the domain; \<open>websiteDomain\<close> is
  \<open>None\<close> for \<^verbatim>\<open>null\<close>.
\<close>

definition isSocialContact :: "string \<Rightarrow> bool" where
  "isSocialContact email =
     (startsWith email ''instagram:'' \<or> startsWith email ''facebook:''
      \<or> startsWith email ''twitter:'')"

definition fileExtensions :: "string list" where
  "fileExtensions =
     [''png'', ''jpg'', ''jpeg'', ''gif'', ''svg'', ''webp'', ''bmp'', ''tiff'', ''pdf'',
      ''doc'', ''docx'']"

definition placeholders :: "string list" where
  "placeholders =
     [''your@email.com'', ''user@domain.com'', ''hi@mystore.com'', ''test@domain.com'',
      ''demo@domain.com'', ''sample@domain.com'', ''email@example.com'', ''contact@domain.com'',
      ''mail@domain.com'', ''admin@domain.com'', ''info@domain.com'', ''example@domain.com'',
      ''test@test.com'', ''admin@admin.com'', ''user@user.com'', ''contact@contact.com'']"

definition fillerPrefixes :: "string list" where
  "fillerPrefixes =
     [''filler'', ''placeholder'', ''temp'', ''temporary'', ''fake'', ''dummy'', ''sample'']"

definition devDomains :: "string list" where
  "devDomains =
     [''godaddy.com'', ''hostgator.com'', ''bluehost.com'', ''lab6.com'', ''dev.com'',
      ''localhost'']"

definition excludedPrefixes :: "string list" where
  "excludedPrefixes =
     [''noreply'', ''no-reply'', ''donotreply'', ''do-not-reply'', ''bounce'', ''mailer-daemon'',
      ''postmaster'', ''abuse'', ''spam'', ''webmaster'', ''root'', ''sysadmin'', ''system'',
      ''daemon'', ''nobody'', ''www-data'', ''apache'', ''nginx'', ''ftp'', ''mail'', ''alerts'',
      ''notifications'', ''automated'', ''robot'', ''bot'', ''crawler'', ''spider'']"

text \<open>
  The rules of the loop body that end in \<^verbatim>\<open>continue\<close> before the address is scored, in
  the order of the source, for an address with local part \<open>local\<close> and domain \<open>domain\<close>.
\<close>

definition skippedBeforeDNS :: "string \<Rightarrow> string \<Rightarrow> string \<Rightarrow> bool" where
  "skippedBeforeDNS email local domain =
     (isDisposableDomain domain
      \<or> matchesEnd (Seq (Lit ''.'') (OneOf fileExtensions)) (toLowerCase email)
      \<or> matchesWhole (Cls isHex 24 None) local
      \<or> matchesWhole (Cls isHex 32 (Some 32)) local
      \<or> (length local > 15 \<and> matchesWhole (Cls isAlnum 15 None) local)
      \<or> real (length (filter isDigit local)) > real (length local) * 0.5
      \<or> (includesStr domain ''sentry'' \<or> includesStr local ''sentry'')
      \<or> toLowerCase email \<in> set placeholders
      \<or> list_ex (\<lambda>prefix. startsWith local prefix) fillerPrefixes
      \<or> list_ex (\<lambda>devDomain. includesStr domain devDomain) devDomains
      \<or> [local] = take 1 (splitStr CHR ''.'' domain))"

text \<open>The three tiers, with the bonus for the domain of the website.\<close>

definition tierScore :: "string option \<Rightarrow> string \<Rightarrow> string \<Rightarrow> string \<Rightarrow> int" where
  "tierScore websiteDomain email local domain =
     (if isBusinessEmailPattern email = Some True
      then 100 + (case websiteDomain of
                    None \<Rightarrow> 0
                  | Some w \<Rightarrow> if w \<noteq> [] \<and> endsWith domain w then 10 else 0)
      else if domain \<in> set PERSONAL_PROVIDERS \<and> looksLikePersonNameLocalPart local then 50
      else 10)"

definition isAggregatorDomain :: "string \<Rightarrow> bool" where
  "isAggregatorDomain domain = list_ex (\<lambda>d. endsWith domain d) AGGREGATOR_DOMAINS"

text \<open>
  One turn of the loop: \<open>None\<close> when the address is skipped, \<open>Some score\<close> when the pair
  of the address and the score is pushed on \<^verbatim>\<open>validEmails\<close>.
\<close>

definition scoreContact :: "(string \<Rightarrow> bool) \<Rightarrow> string option \<Rightarrow> string \<Rightarrow> int option" where
  "scoreContact mx websiteDomain email =
     (if isSocialContact email then Some 30
      else
        let local = localPart email in
        case domainPart email of
          None \<Rightarrow> None
        | Some domain \<Rightarrow>
            if local = [] \<or> domain = [] \<or> \<not> isValidEmailFormat email then None
            else if skippedBeforeDNS email local domain then None
            else if \<not> mx domain then None
            else
              let score = tierScore websiteDomain email local domain in
              if local \<in> set excludedPrefixes then None
              else if isAggregatorDomain domain then Some (score - 50)
              else Some score)"

text \<open>The array \<^verbatim>\<open>validEmails\<close> after the loop.\<close>

definition validEmails ::
    "(string \<Rightarrow> bool) \<Rightarrow> string option \<Rightarrow> string list \<Rightarrow> (string \<times> int) list" where
  "validEmails mx websiteDomain emailList =
     List.map_filter (\<lambda>email. map_option (\<lambda>score. (email, score))
                                (scoreContact mx websiteDomain email))
                     emailList"

text \<open>
  \<^verbatim>\<open>validEmails.sort((a, b) => b.score - a.score)\<close>: the sort of an array is stable, and
  so is the insertion sort \<^const>\<open>sort_key\<close>.
\<close>

definition rankedContacts ::
    "(string \<Rightarrow> bool) \<Rightarrow> string option \<Rightarrow> string list \<Rightarrow> (string \<times> int) list" where
  "rankedContacts mx websiteDomain emailList =
     sort_key (\<lambda>item. - snd item) (validEmails mx websiteDomain emailList)"

definition filterBusinessEmails ::
    "(string \<Rightarrow> bool) \<Rightarrow> string option \<Rightarrow> string list \<Rightarrow> string list" where
  "filterBusinessEmails mx websiteDomain emailList =
     slice (map fst (rankedContacts mx websiteDomain emailList)) 0 6"

section \<open>Raw contact extraction\<close>

text \<open>
  A JavaScript \<^verbatim>\<open>Set\<close> of strings keeps its members in the order of their first insertion:
  a list without repetitions, with \<^verbatim>\<open>add\<close> at the end.
\<close>

definition setAdd :: "'a list \<Rightarrow> 'a \<Rightarrow> 'a list" where
  "setAdd s x = (if x \<in> set s then s else s @ [x])"

definition setAddAll :: "'a list \<Rightarrow> 'a list \<Rightarrow> 'a list" where
  "setAddAll s xs = foldl setAdd s xs"

text \<open>\<^verbatim>\<open>s.replace(sub, '')\<close> with a string pattern: the first occurrence is removed.\<close>

fun removeFirst :: "string \<Rightarrow> string \<Rightarrow> string" where
  "removeFirst sub [] = []"
| "removeFirst sub (x # xs) =
     (if startsWith (x # xs) sub then drop (length sub) (x # xs)
      else x # removeFirst sub xs)"

text \<open>\<^verbatim>\<open>s.split(c)[0]\<close>.\<close>

definition firstPiece :: "char \<Rightarrow> string \<Rightarrow> string" where
  "firstPiece c s = (case splitStr c s of [] \<Rightarrow> [] | p # _ \<Rightarrow> p)"

text \<open>
  The class \<^verbatim>\<open>\s\<close> on ASCII text: space, tab, line feed, vertical tab, form feed and
  carriage return.
\<close>

definition isSpace :: "char \<Rightarrow> bool" where
  "isSpace c = (c \<in> set [CHR 0x20, CHR 0x09, CHR 0x0A, CHR 0x0B, CHR 0x0C, CHR 0x0D])"

text \<open>
  One match of \<^verbatim>\<open>/\s*\[\s*tok\s*\]\s*/i\<close> at the start of a string (\<open>tok\<close> in lower
  case): what is left after it. White space and the brackets share no character, so the
  greedy match is the only one.
\<close>

definition matchBracket :: "string \<Rightarrow> string \<Rightarrow> string option" where
  "matchBracket tok s =
     (case dropWhile isSpace s of
        [] \<Rightarrow> None
      | c # r1 \<Rightarrow>
          if c \<noteq> CHR ''['' then None
          else
            let r2 = dropWhile isSpace r1 in
            if toLowerCase (take (length tok) r2) \<noteq> tok then None
            else (case dropWhile isSpace (drop (length tok) r2) of
                    [] \<Rightarrow> None
                  | d # r3 \<Rightarrow> if d \<noteq> CHR '']'' then None else Some (dropWhile isSpace r3)))"

lemma matchBracket_shorter:
  assumes "matchBracket tok s = Some rest"
  shows "length rest < length s"
proof (cases "dropWhile isSpace s")
  case Nil
  with assms show ?thesis by (simp add: matchBracket_def)
next
  case (Cons c r1)
  let ?r2 = "dropWhile isSpace r1"
  let ?t = "dropWhile isSpace (drop (length tok) ?r2)"
  from assms Cons have m: "(case ?t of [] \<Rightarrow> None
                  | d # r3 \<Rightarrow> if d \<noteq> CHR '']'' then None else Some (dropWhile isSpace r3))
            = Some rest"
    by (simp add: matchBracket_def Let_def split: if_split_asm)
  show ?thesis
  proof (cases ?t)
    case Nil
    with m show ?thesis by simp
  next
    case (Cons d r3)
    with m have rest: "rest = dropWhile isSpace r3"
      by (simp split: if_split_asm)
    have "length rest \<le> length r3"
      unfolding rest by (rule length_dropWhile_le)
    also have "length r3 < length ?t" unfolding Cons by simp
    also have "length ?t \<le> length (drop (length tok) ?r2)"
      by (rule length_dropWhile_le)
    also have "\<dots> \<le> length ?r2" by simp
    also have "\<dots> \<le> length r1" by (rule length_dropWhile_le)
    also have "\<dots> < length (dropWhile isSpace s)"
      unfolding \<open>dropWhile isSpace s = c # r1\<close> by simp
    also have "\<dots> \<le> length s" by (rule length_dropWhile_le)
    finally show ?thesis .
  qed
qed

text \<open>\<^verbatim>\<open>s.replace(/\s*\[\s*tok\s*\]\s*/gi, rep)\<close>: every match, from the left.\<close>

function replaceBracket :: "string \<Rightarrow> string \<Rightarrow> string \<Rightarrow> string" where
  "replaceBracket tok rep [] = []"
| "replaceBracket tok rep (x # xs) =
     (case matchBracket tok (x # xs) of
        Some rest \<Rightarrow> rep @ replaceBracket tok rep rest
      | None \<Rightarrow> x # replaceBracket tok rep xs)"
  by pat_completeness auto
termination
  by (relation "measure (\<lambda>(tok, rep, s). length s)")
     (auto dest: matchBracket_shorter)

text \<open>The clean-up of one match of the patterns of \<^verbatim>\<open>extractEmails\<close>.\<close>

definition cleanEmail :: "string \<Rightarrow> string" where
  "cleanEmail m =
     toLowerCase (filter (\<lambda>c. \<not> isSpace c)
       (replaceBracket ''dot'' ''.'' (replaceBracket ''at'' ''@'' m)))"

text \<open>
  What the DOM queries and the regular-expression searches of \<^verbatim>\<open>extractEmails\<close> find in
  an HTML text: the \<^verbatim>\<open>href\<close> of every anchor whose \<^verbatim>\<open>href\<close> starts with
  \<^verbatim>\<open>mailto:\<close>; the matches of each of the three patterns; for every
  \<^verbatim>\<open>application/ld+json\<close> script the fields \<^verbatim>\<open>email\<close>, \<^verbatim>\<open>contactPoint.email\<close> and
  \<^verbatim>\<open>author.email\<close> of the parsed data (\<open>None\<close> when parsing throws); for every element
  with one of the data attributes the first non-empty one of them (empty when there is
  none); and for every base64-looking token its decoded text with the first address the
  standard pattern finds in it.
\<close>

datatype jsonField = Absent | Str string | NotAString

record htmlView =
  mailtoHrefs :: "string list"
  patternMatches :: "string list list"
  ldJson :: "(jsonField \<times> jsonField \<times> jsonField) option list"
  dataAttrs :: "string list"
  base64Decoded :: "(string \<times> string option) list"

text \<open>Method 1: the \<^verbatim>\<open>mailto:\<close> links.\<close>

definition addMailto :: "string list \<Rightarrow> string \<Rightarrow> string list" where
  "addMailto emails href =
     (let email = firstPiece CHR ''&'' (firstPiece CHR ''?'' (removeFirst ''mailto:'' href))
      in if email \<noteq> [] then setAdd emails (toLowerCase email) else emails)"

text \<open>Method 2: the matches of the patterns.\<close>

definition addMatch :: "string list \<Rightarrow> string \<Rightarrow> string list" where
  "addMatch emails m =
     (let c = cleanEmail m
      in if includesStr c ''@'' \<and> includesStr c ''.'' then setAdd emails c else emails)"

text \<open>
  Method 3: the structured data. A field that is a non-empty string is added in lower
  case; \<^verbatim>\<open>toLowerCase\<close> on a truthy field that is no string throws, which ends the work on
  this script and keeps what was added before.
\<close>

fun addFields :: "string list \<Rightarrow> jsonField list \<Rightarrow> string list" where
  "addFields emails [] = emails"
| "addFields emails (Absent # fs) = addFields emails fs"
| "addFields emails (Str s # fs) =
     (if s \<noteq> [] then addFields (setAdd emails (toLowerCase s)) fs else addFields emails fs)"
| "addFields emails (NotAString # fs) = emails"

definition addLdJson ::
    "string list \<Rightarrow> (jsonField \<times> jsonField \<times> jsonField) option \<Rightarrow> string list" where
  "addLdJson emails script =
     (case script of
        None \<Rightarrow> emails
      | Some (email, contactPointEmail, authorEmail) \<Rightarrow>
          addFields emails [email, contactPointEmail, authorEmail])"

text \<open>Method 4: the data attributes.\<close>

definition addDataAttr :: "string list \<Rightarrow> string \<Rightarrow> string list" where
  "addDataAttr emails dataEmail =
     (if dataEmail \<noteq> [] \<and> includesStr dataEmail ''@''
      then setAdd emails (toLowerCase dataEmail) else emails)"

text \<open>Method 5: the decoded tokens.\<close>

definition addDecoded :: "string list \<Rightarrow> string \<times> string option \<Rightarrow> string list" where
  "addDecoded emails tok =
     (case tok of (decoded, emailMatch) \<Rightarrow>
        if includesStr decoded ''@'' \<and> includesStr decoded ''.''
        then (case emailMatch of None \<Rightarrow> emails | Some m \<Rightarrow> setAdd emails (toLowerCase m))
        else emails)"

text \<open>The set \<^verbatim>\<open>emails\<close> after the five methods, and helpers.js, \<^verbatim>\<open>extractEmails(html)\<close>.\<close>

definition harvestedEmails :: "htmlView \<Rightarrow> string list" where
  "harvestedEmails v =
     (let emails = foldl addMailto [] (mailtoHrefs v);
          emails = foldl addMatch emails (concat (patternMatches v));
          emails = foldl addLdJson emails (ldJson v);
          emails = foldl addDataAttr emails (dataAttrs v);
          emails = foldl addDecoded emails (base64Decoded v)
      in emails)"

definition extractEmails :: "htmlView \<Rightarrow> string list" where
  "extractEmails v = slice (harvestedEmails v) 0 8"

text \<open>The invariant of the set \<^verbatim>\<open>emails\<close>: no repetition, every member in lower case.\<close>

definition lowerSet :: "string list \<Rightarrow> bool" where
  "lowerSet emails = (distinct emails \<and> list_all (\<lambda>e. toLowerCase e = e) emails)"

text \<open>
  A homepage with nine addresses, each found both by the standard pattern in the markup
  and in the text of the page; and a network in which no page and no place details can be
  fetched, every address is geocoded to (0, 0) and every search returns one empty page.
\<close>

definition nineAddresses :: "string list" where
  "nineAddresses =
     [''a@b.co'', ''b@b.co'', ''c@b.co'', ''d@b.co'', ''e@b.co'', ''f@b.co'', ''g@b.co'',
      ''h@b.co'', ''i@b.co'']"

section \<open>Contact Enricher\<close>

text \<open>
  A lead as \<^verbatim>\<open>Actor.main\<close> builds it. The fields that no function modelled here reads or
  changes (address, coordinates, rating, the maps URL) are left out.
\<close>

record place =
  name :: string
  searchTerm :: string
  placeId :: string
  website :: string
  phone :: string
  emailList :: "string list"

text \<open>
  What \<^verbatim>\<open>enrichPlaceDetails\<close> reads from a fetched page: the view of
  \<^verbatim>\<open>extractEmails\<close>; the matches of the standard pattern in the text of the page; the
  addresses found in the matches of the three markup patterns; the addresses found in the
  footer, contact and about sections; the \<^verbatim>\<open>href\<close> of every anchor that mentions
  instagram, facebook or twitter; and the same-host contact or about links (the members of
  \<^verbatim>\<open>candidateUrls\<close>, in order).
\<close>

record homepage =
  html :: htmlView
  textEmails :: "string list"
  markupEmails :: "string list"
  sectionEmails :: "string list"
  socialLinks :: "string list"
  contactLinks :: "string list"

text \<open>
  A place as the search endpoint returns it (after the translation of the field names on
  the legacy path); a missing field is the empty string.
\<close>

record apiPlace =
  apiId :: string
  displayName :: string
  websiteUri :: string
  internationalPhoneNumber :: string

text \<open>
  The answers to the page requests of one search, in order: a request for which both the
  primary and the legacy endpoint throw, a page without a next-page token, or a page with
  a token and the answers that follow it.
\<close>

datatype pages =
    NoResponse
  | LastPage "apiPlace list"
  | NextPage "apiPlace list" pages

datatype geocoded =
    GeocodeThrows
  | GeocodeEmpty
  | GeocodeAt real real

text \<open>
  The network and the clock as one run sees them. \<open>None\<close> is a request that throws.
  \<open>placeDetails\<close> gives \<^verbatim>\<open>websiteFromApi\<close> and \<^verbatim>\<open>phoneFromApi\<close>; \<open>hostname\<close> is
  \<^verbatim>\<open>new URL(website).hostname\<close>; \<open>mxRecord\<close> is \<^verbatim>\<open>validateDomainDNS\<close>;
  \<open>searchApi\<close> takes the center and the radius of the cell and the search term;
  \<open>callTimes n\<close> are the two clock readings of the \<^verbatim>\<open>checkLimits\<close> call made when the
  counter is \<open>n\<close>; \<open>dayOfYear\<close> is the day of the year of the start of the run.
\<close>

record web =
  placeDetails :: "string \<Rightarrow> (string \<times> string) option"
  fetchPage :: "string \<Rightarrow> homepage option"
  hostname :: "string \<Rightarrow> string option"
  mxRecord :: "string \<Rightarrow> bool"
  geocodeApi :: "string \<Rightarrow> geocoded"
  searchApi :: "real \<times> real \<Rightarrow> real \<Rightarrow> string \<Rightarrow> pages"
  callTimes :: "nat \<Rightarrow> int \<times> int"
  dayOfYear :: nat

text \<open>
  \<^verbatim>\<open>link.match(/site\/([a-zA-Z0-9_.]+)/)\<close>: the capture group of the leftmost occurrence of
  \<open>site/\<close> that is followed by a handle character.
\<close>

definition isHandleChar :: "char \<Rightarrow> bool" where
  "isHandleChar c = (isAlnum c \<or> c \<in> set ''_.'')"

fun handleAfter :: "string \<Rightarrow> string \<Rightarrow> string option" where
  "handleAfter site [] = None"
| "handleAfter site (x # xs) =
     (if startsWith (x # xs) site \<and> takeWhile isHandleChar (drop (length site) (x # xs)) \<noteq> []
      then Some (takeWhile isHandleChar (drop (length site) (x # xs)))
      else handleAfter site xs)"

definition addSocial :: "string list \<Rightarrow> string \<Rightarrow> string list" where
  "addSocial socialContacts link =
     (let s1 = (case handleAfter ''instagram.com/'' link of
                  None \<Rightarrow> socialContacts
                | Some h \<Rightarrow>
                    if \<not> includesStr h ''p/'' \<and> \<not> includesStr h ''explore''
                    then setAdd socialContacts (''instagram:'' @ h) else socialContacts)
      in (case handleAfter ''facebook.com/'' link of
            None \<Rightarrow> s1
          | Some h \<Rightarrow> if \<not> includesStr h ''p/'' then setAdd s1 (''facebook:'' @ h) else s1))"

text \<open>The array \<^verbatim>\<open>rawEmails\<close> after the homepage has been read.\<close>

definition rawEmailsOf :: "homepage \<Rightarrow> string list" where
  "rawEmailsOf hp =
     extractEmails (html hp) @ textEmails hp @ markupEmails hp @ sectionEmails hp"

text \<open>The array \<^verbatim>\<open>moreEmails\<close>: one more page, only when nothing was found.\<close>

definition moreEmailsOf :: "web \<Rightarrow> homepage \<Rightarrow> string list" where
  "moreEmailsOf w hp =
     (if rawEmailsOf hp = []
      then (case contactLinks hp of
              [] \<Rightarrow> []
            | firstUrl # _ \<Rightarrow>
                (case fetchPage w firstUrl of None \<Rightarrow> [] | Some p \<Rightarrow> extractEmails (html p)))
      else [])"

text \<open>The array \<^verbatim>\<open>allRaw\<close>, the argument of \<^verbatim>\<open>filterBusinessEmails\<close>.\<close>

definition allRawOf :: "web \<Rightarrow> homepage \<Rightarrow> string list" where
  "allRawOf w hp =
     setAddAll [] (rawEmailsOf hp @ moreEmailsOf w hp @ foldl addSocial [] (socialLinks hp))"

text \<open>\<^verbatim>\<open>hostname.replace(/^www\./, '')\<close>, \<open>None\<close> when the URL does not parse.\<close>

definition websiteDomainOf :: "web \<Rightarrow> string \<Rightarrow> string option" where
  "websiteDomainOf w site =
     map_option (\<lambda>h. if startsWith h ''www.'' then drop 4 h else h) (hostname w site)"

text \<open>
  The inner \<^verbatim>\<open>try\<close> of \<^verbatim>\<open>enrichPlaceDetails\<close>: the contacts of a website, the empty list
  when the homepage cannot be fetched.
\<close>

definition contactsOf :: "web \<Rightarrow> string \<Rightarrow> string list" where
  "contactsOf w site =
     (case fetchPage w site of
        None \<Rightarrow> []
      | Some hp \<Rightarrow> filterBusinessEmails (mxRecord w) (websiteDomainOf w site) (allRawOf w hp))"

text \<open>
  The outbound requests to the priced endpoints, in the order in which they are sent. A
  search request names the position of the city in the selected list (when there is one),
  the position of the city among the target centers, the center of the cell and the
  position of the search term.
\<close>

datatype request =
    GeocodeRequest string
  | SearchRequest "nat option" nat "real \<times> real" nat
  | DetailsRequest string

text \<open>
  helpers.js, \<^verbatim>\<open>enrichPlaceDetails(place, apiKey, rateLimiter)\<close>. The arguments \<open>now\<close> and
  \<open>now'\<close> are the clock readings of the \<^verbatim>\<open>checkLimits\<close> call. The result is the place,
  the limiter and the requests that were sent. Whatever is thrown inside the outer
  \<^verbatim>\<open>try\<close>, the error of \<^verbatim>\<open>checkLimits\<close> included, ends in the outer \<^verbatim>\<open>catch\<close>, which
  empties the website, the phone and the contact list and returns the place.
\<close>

definition emptied :: "place \<Rightarrow> place" where
  "emptied p = p\<lparr>website := [], phone := [], emailList := []\<rparr>"

definition withContacts :: "web \<Rightarrow> place \<Rightarrow> place" where
  "withContacts w p =
     (if website p \<noteq> [] then p\<lparr>emailList := contactsOf w (website p)\<rparr>
      else p\<lparr>emailList := []\<rparr>)"

definition enrichPlaceDetails ::
    "web \<Rightarrow> int \<Rightarrow> int \<Rightarrow> place \<Rightarrow> APIRateLimiter option
       \<Rightarrow> place \<times> APIRateLimiter option \<times> request list" where
  "enrichPlaceDetails w now now' p rateLimiter =
     (case (case rateLimiter of
              None \<Rightarrow> Inr None
            | Some rl \<Rightarrow> map_sum id Some (checkLimits now now' rl)) of
        Inl e \<Rightarrow> (emptied p, rateLimiter, [])
      | Inr rateLimiter' \<Rightarrow>
          if website p = [] \<and> phone p = []
          then (case placeDetails w (placeId p) of
                  None \<Rightarrow> (emptied p, rateLimiter', [DetailsRequest (placeId p)])
                | Some (websiteFromApi, phoneFromApi) \<Rightarrow>
                    (withContacts w (p\<lparr>website := websiteFromApi,
                                        phone := normalizePhone phoneFromApi\<rparr>),
                     rateLimiter', [DetailsRequest (placeId p)]))
          else (withContacts w p, rateLimiter', []))"

definition ninePage :: homepage where
  "ninePage =
     \<lparr>html = \<lparr>mailtoHrefs = [], patternMatches = [nineAddresses, [], []], ldJson = [],
              dataAttrs = [], base64Decoded = []\<rparr>,
      textEmails = nineAddresses, markupEmails = [], sectionEmails = [], socialLinks = [],
      contactLinks = []\<rparr>"

definition silentWeb :: web where
  "silentWeb =
     \<lparr>placeDetails = (\<lambda>placeId. None), fetchPage = (\<lambda>url. None),
      hostname = (\<lambda>url. None), mxRecord = (\<lambda>domain. True),
      geocodeApi = (\<lambda>address. GeocodeAt 0 0),
      searchApi = (\<lambda>center radius term. LastPage []),
      callTimes = (\<lambda>n. (200 * int n, 200 * int n + 100)), dayOfYear = 1\<rparr>"

section \<open>The run\<close>

text \<open>main.js, \<^verbatim>\<open>Actor.main\<close>: the input of a run, after the defaults have been filled in.\<close>

record runInput =
  searchTerms :: "string list"
  location :: string
  radiusMeters :: real
  maxPerTerm :: nat
  enableRateLimiting :: bool
  useTopUSCities :: bool
  dailyCostLimit :: rat
  cohortCount :: nat
  cityCohortIndex :: int
  persistDedupe :: bool
  cooldownDays :: nat

text \<open>The checkpoint record (the fields that the run reads).\<close>

record checkpoint =
  processedCities :: "nat list"
  currentCityIndex :: nat
  currentSearchTermIndex :: nat

definition initialCheckpoint :: checkpoint where
  "initialCheckpoint =
     \<lparr>processedCities = [], currentCityIndex = 0, currentSearchTermIndex = 0\<rparr>"

text \<open>
  A target center: \<open>index\<close> is the position of the city in the selected list, \<open>None\<close>
  (\<^verbatim>\<open>undefined\<close>) for the center of an explicit location.
\<close>

record targetCenter =
  lat :: real
  lng :: real
  label :: string
  index :: "nat option"

text \<open>
  The state of a run: the rate limiter (\<open>None\<close> for \<^verbatim>\<open>null\<close>), the variable
  \<^verbatim>\<open>checkpoint\<close>, the value under \<^verbatim>\<open>current-progress\<close> in the checkpoint store, the
  dataset (every row with its \<^verbatim>\<open>cityProcessed\<close>), \<^verbatim>\<open>saveCounter\<close>, the keys of the map
  \<^verbatim>\<open>allPlaces\<close>, the place identifiers with a record inside the cooldown window in the
  dedupe store, \<^verbatim>\<open>skippedDueToCooldown\<close>, the buffer \<^verbatim>\<open>batchLeads\<close> of the city at hand,
  and the priced requests sent so far.
\<close>

record runState =
  rateLimiter :: "APIRateLimiter option"
  checkpoint :: checkpoint
  checkpointStore :: "checkpoint option"
  dataset :: "(place \<times> string) list"
  saveCounter :: nat
  allPlaces :: "string list"
  dedupeStore :: "string list"
  skippedDueToCooldown :: nat
  batchLeads :: "place list"
  requests :: "request list"

text \<open>How a run, or a part of it, ends: normally, or with an exception in a state.\<close>

datatype outcome =
    Done runState
  | Failed error runState

definition SAVE_INTERVAL :: nat where
  "SAVE_INTERVAL = 50"

text \<open>\<^verbatim>\<open>array.entries()\<close>: every element with its position.\<close>

definition enumerate :: "'a list \<Rightarrow> (nat \<times> 'a) list" where
  "enumerate xs = zip [0..<length xs] xs"

text \<open>
  \<^verbatim>\<open>geocodeLocation(location, rateLimiter)\<close>. A location of the form \<^verbatim>\<open>lat,lng\<close> (the
  pattern \<^verbatim>\<open>/^-?\d+\.\d+,-?\d+\.\d+$/\<close>) is parsed and costs no request. Otherwise
  \<^verbatim>\<open>rateLimiter.checkLimits()\<close> is called without a test for \<^verbatim>\<open>null\<close>.
\<close>

definition digits :: rx where
  "digits = Cls isDigit 1 None"

definition latLngPattern :: rx where
  "latLngPattern =
     seqs [Opt (Lit ''-''), digits, Lit ''.'', digits, Lit '','',
           Opt (Lit ''-''), digits, Lit ''.'', digits]"

definition natOfDigits :: "string \<Rightarrow> nat" where
  "natOfDigits ds = foldl (\<lambda>a c. 10 * a + (of_char c - 48)) 0 ds"

text \<open>\<^verbatim>\<open>Number(s)\<close> for a string of the form \<^verbatim>\<open>-?\d+\.\d+\<close>, as an exact real.\<close>

definition numberOf :: "string \<Rightarrow> real" where
  "numberOf s =
     (let negative = startsWith s ''-'';
          body = (if negative then drop 1 s else s);
          whole = takeWhile isDigit body;
          fraction = drop (Suc (length whole)) body;
          magnitude = real (natOfDigits whole)
                      + real (natOfDigits fraction) / 10 ^ length fraction
      in if negative then - magnitude else magnitude)"

definition parseLatLng :: "string \<Rightarrow> (real \<times> real) option" where
  "parseLatLng loc =
     (if matchesWhole latLngPattern loc
      then (case splitStr CHR '','' loc of
              a # b # _ \<Rightarrow> Some (numberOf a, numberOf b)
            | _ \<Rightarrow> None)
      else None)"

definition geocodeLocation ::
    "web \<Rightarrow> string \<Rightarrow> runState \<Rightarrow> (error + real \<times> real) \<times> runState" where
  "geocodeLocation w loc s =
     (case parseLatLng loc of
        Some center \<Rightarrow> (Inr center, s)
      | None \<Rightarrow>
          (case rateLimiter s of
             None \<Rightarrow> (Inl NullRateLimiter, s)
           | Some rl \<Rightarrow>
               (case checkLimits (fst (callTimes w (apiCalls rl)))
                                 (snd (callTimes w (apiCalls rl))) rl of
                  Inl e \<Rightarrow> (Inl e, s)
                | Inr rl' \<Rightarrow>
                    let s' = s\<lparr>rateLimiter := Some rl',
                               requests := requests s @ [GeocodeRequest loc]\<rparr>
                    in (case geocodeApi w loc of
                          GeocodeThrows \<Rightarrow> (Inl RequestFailed, s')
                        | GeocodeEmpty \<Rightarrow> (Inl LocationNotFound, s')
                        | GeocodeAt la lo \<Rightarrow> (Inr (la, lo), s')))))"

text \<open>\<^verbatim>\<open>calculateDailyCohort\<close> and the choice of the cohort in \<^verbatim>\<open>Actor.main\<close>.\<close>

definition calculateDailyCohort :: "int \<Rightarrow> nat \<Rightarrow> nat \<Rightarrow> nat \<Rightarrow> nat" where
  "calculateDailyCohort cohortIndex cohorts totalCities day =
     (if cohortIndex \<noteq> - 1 \<and> cohortIndex \<ge> 0 then nat cohortIndex else day mod cohorts)"

definition selectedCitiesOf :: "web \<Rightarrow> runInput \<Rightarrow> string list \<Rightarrow> string list" where
  "selectedCitiesOf w inp allCities =
     (let totalCohorts = max 1 (cohortCount inp);
          cohortIdx = (if cityCohortIndex inp < 0
                       then calculateDailyCohort (cityCohortIndex inp) totalCohorts
                              (length allCities) (dayOfYear w)
                       else nat (cityCohortIndex inp))
      in getCitiesForCohort allCities cohortIdx totalCohorts)"

text \<open>
  The loop that resolves the selected cities: a city below the checkpoint is skipped, every
  other city is geocoded.
\<close>

fun resolveCities ::
    "web \<Rightarrow> (nat \<times> string) list \<Rightarrow> targetCenter list \<Rightarrow> runState
       \<Rightarrow> (error + targetCenter list) \<times> runState" where
  "resolveCities w [] centers s = (Inr centers, s)"
| "resolveCities w ((i, city) # rest) centers s =
     (if i < currentCityIndex (checkpoint s) then resolveCities w rest centers s
      else (case geocodeLocation w city s of
              (Inl e, s') \<Rightarrow> (Inl e, s')
            | (Inr (la, lo), s') \<Rightarrow>
                resolveCities w rest
                  (centers @ [\<lparr>lat = la, lng = lo, label = city, index = Some i\<rparr>]) s'))"

definition targetCentersOf ::
    "web \<Rightarrow> runInput \<Rightarrow> string list \<Rightarrow> runState
       \<Rightarrow> (error + targetCenter list) \<times> runState" where
  "targetCentersOf w inp allCities s =
     (if useTopUSCities inp
      then resolveCities w (enumerate (selectedCitiesOf w inp allCities)) [] s
      else (case geocodeLocation w (location inp) s of
              (Inl e, s') \<Rightarrow> (Inl e, s')
            | (Inr (la, lo), s') \<Rightarrow>
                (Inr [\<lparr>lat = la, lng = lo, label = location inp, index = None\<rparr>], s')))"

text \<open>The dedupe store: \<^verbatim>\<open>hasRecentPlace\<close> and \<^verbatim>\<open>markPlaceSeen\<close>.\<close>

definition hasRecentPlace :: "runInput \<Rightarrow> runState \<Rightarrow> string \<Rightarrow> bool" where
  "hasRecentPlace inp s pid =
     (if \<not> persistDedupe inp \<or> cooldownDays inp = 0 then False
      else pid \<in> set (dedupeStore s))"

definition markPlaceSeen :: "runInput \<Rightarrow> string \<Rightarrow> runState \<Rightarrow> runState" where
  "markPlaceSeen inp pid s =
     (if \<not> persistDedupe inp then s
      else s\<lparr>dedupeStore := setAdd (dedupeStore s) pid\<rparr>)"

text \<open>
  \<^verbatim>\<open>asyncPool(2, batchLeads, ...)\<close>: every lead of the batch is enriched and marked as
  seen. The pool runs two enrichments at a time; here they run one after the other.
\<close>

fun enrichAll :: "web \<Rightarrow> runInput \<Rightarrow> place list \<Rightarrow> runState \<Rightarrow> place list \<times> runState" where
  "enrichAll w inp [] s = ([], s)"
| "enrichAll w inp (lead # leads) s =
     (let times = (case rateLimiter s of None \<Rightarrow> (0, 0) | Some rl \<Rightarrow> callTimes w (apiCalls rl))
      in case enrichPlaceDetails w (fst times) (snd times) lead (rateLimiter s) of
           (lead', rl', sent) \<Rightarrow>
             (case enrichAll w inp leads
                     (markPlaceSeen inp (placeId lead')
                        (s\<lparr>rateLimiter := rl', requests := requests s @ sent\<rparr>)) of
                (leads', s') \<Rightarrow> (lead' # leads', s')))"

text \<open>\<^verbatim>\<open>saveLeadsIncremental(leads, searchTerm, city)\<close> and \<^verbatim>\<open>saveCheckpoint\<close>.\<close>

definition saveLeadsIncremental :: "place list \<Rightarrow> string \<Rightarrow> string \<Rightarrow> runState \<Rightarrow> runState" where
  "saveLeadsIncremental leads term city s =
     (if leads \<noteq> []
      then s\<lparr>dataset := dataset s
                 @ map (\<lambda>lead. (lead\<lparr>searchTerm := (if searchTerm lead \<noteq> []
                                                      then searchTerm lead else term)\<rparr>, city))
                       leads,
             saveCounter := saveCounter s + length leads\<rparr>
      else s)"

definition saveCheckpoint :: "nat \<Rightarrow> nat \<Rightarrow> runState \<Rightarrow> runState" where
  "saveCheckpoint cityIndex searchTermIndex s =
     (let c = \<lparr>processedCities = processedCities (checkpoint s),
               currentCityIndex = cityIndex,
               currentSearchTermIndex = searchTermIndex\<rparr>
      in s\<lparr>checkpoint := c, checkpointStore := Some c\<rparr>)"

text \<open>
  Where a search runs: the position of the city in the selected list, its position among
  the target centers, its label, the center of the cell, and the position and the text of
  the search term.
\<close>

record searchCell =
  cellIndex :: "nat option"
  cellCityIdx :: nat
  cellLabel :: string
  cellBox :: "real \<times> real"
  cellTermIdx :: nat
  cellTerm :: string

text \<open>The body of \<^verbatim>\<open>for (const p of places)\<close>.\<close>

definition newPlace :: "string \<Rightarrow> apiPlace \<Rightarrow> place" where
  "newPlace term p =
     \<lparr>name = displayName p, searchTerm = term, placeId = apiId p, website = websiteUri p,
      phone = normalizePhone (internationalPhoneNumber p), emailList = []\<rparr>"

definition processPlace :: "web \<Rightarrow> runInput \<Rightarrow> searchCell \<Rightarrow> runState \<Rightarrow> apiPlace \<Rightarrow> runState" where
  "processPlace w inp cell s p =
     (if apiId p = [] then s
      else if hasRecentPlace inp s (apiId p)
      then s\<lparr>skippedDueToCooldown := skippedDueToCooldown s + 1\<rparr>
      else if apiId p \<in> set (allPlaces s) then s
      else
        let s1 = s\<lparr>allPlaces := allPlaces s @ [apiId p],
                   batchLeads := batchLeads s @ [newPlace (cellTerm cell) p]\<rparr>
        in if length (batchLeads s1) \<ge> SAVE_INTERVAL
           then (case enrichAll w inp (batchLeads s1) s1 of
                   (leads, s2) \<Rightarrow>
                     (saveCheckpoint (cellCityIdx cell) (cellTermIdx cell)
                        (saveLeadsIncremental leads (cellTerm cell) (cellLabel cell) s2))
                     \<lparr>batchLeads := []\<rparr>)
           else s1)"

text \<open>\<^verbatim>\<open>if (rateLimiter) await rateLimiter.checkLimits()\<close>.\<close>

definition guardedCall :: "web \<Rightarrow> runState \<Rightarrow> error + runState" where
  "guardedCall w s =
     (case rateLimiter s of
        None \<Rightarrow> Inr s
      | Some rl \<Rightarrow>
          (case checkLimits (fst (callTimes w (apiCalls rl)))
                            (snd (callTimes w (apiCalls rl))) rl of
             Inl e \<Rightarrow> Inl e
           | Inr rl' \<Rightarrow> Inr (s\<lparr>rateLimiter := Some rl'\<rparr>)))"

text \<open>
  The \<^verbatim>\<open>do ... while (pageToken && fetched < maxPerTerm)\<close> loop of one search term in one
  cell, over the answers of the endpoint.
\<close>

fun searchLoop ::
    "web \<Rightarrow> runInput \<Rightarrow> searchCell \<Rightarrow> pages \<Rightarrow> nat \<Rightarrow> runState \<Rightarrow> outcome" where
  "searchLoop w inp cell answers fetched s =
     (case guardedCall w s of
        Inl e \<Rightarrow> Failed e s
      | Inr s1 \<Rightarrow>
          let s2 = s1\<lparr>requests := requests s1
                        @ [SearchRequest (cellIndex cell) (cellCityIdx cell) (cellBox cell)
                                         (cellTermIdx cell)]\<rparr>
          in (case answers of
                NoResponse \<Rightarrow> Failed RequestFailed s2
              | LastPage places \<Rightarrow> Done (foldl (processPlace w inp cell) s2 places)
              | NextPage places rest \<Rightarrow>
                  let s3 = foldl (processPlace w inp cell) s2 places
                  in if fetched + length places < maxPerTerm inp
                     then searchLoop w inp cell rest (fetched + length places) s3
                     else Done s3))"

text \<open>
  The loop over the search terms in one cell. The test for a term that is already done
  reads the variable \<^verbatim>\<open>checkpoint\<close>, which \<^verbatim>\<open>saveCheckpoint\<close> overwrites.
\<close>

fun termLoop ::
    "web \<Rightarrow> runInput \<Rightarrow> nat \<Rightarrow> targetCenter \<Rightarrow> real \<times> real \<Rightarrow> (nat \<times> string) list
       \<Rightarrow> runState \<Rightarrow> outcome" where
  "termLoop w inp cityIdx center box [] s = Done s"
| "termLoop w inp cityIdx center box ((termIdx, term) # rest) s =
     (if index center = Some (currentCityIndex (checkpoint s))
         \<and> termIdx < currentSearchTermIndex (checkpoint s)
      then termLoop w inp cityIdx center box rest s
      else (case searchLoop w inp
                   \<lparr>cellIndex = index center, cellCityIdx = cityIdx, cellLabel = label center,
                    cellBox = box, cellTermIdx = termIdx, cellTerm = term\<rparr>
                   (searchApi w box (boxRadiusOf (radiusMeters inp)) term) 0 s of
              Failed e s' \<Rightarrow> Failed e s'
            | Done s' \<Rightarrow>
                termLoop w inp cityIdx center box rest (saveCheckpoint cityIdx (termIdx + 1) s')))"

text \<open>The loop over the cells of one city.\<close>

fun boxLoop ::
    "web \<Rightarrow> runInput \<Rightarrow> nat \<Rightarrow> targetCenter \<Rightarrow> (real \<times> real) list \<Rightarrow> runState \<Rightarrow> outcome" where
  "boxLoop w inp cityIdx center [] s = Done s"
| "boxLoop w inp cityIdx center (box # boxes) s =
     (case termLoop w inp cityIdx center box (enumerate (searchTerms inp)) s of
        Failed e s' \<Rightarrow> Failed e s'
      | Done s' \<Rightarrow> boxLoop w inp cityIdx center boxes s')"

text \<open>
  The end of a city: the rest of the batch is enriched and saved, the city is added to
  \<^verbatim>\<open>processedCities\<close> (\<^verbatim>\<open>index || cityIdx\<close>) and the checkpoint moves to the next city.
\<close>

definition finishCity :: "web \<Rightarrow> runInput \<Rightarrow> nat \<Rightarrow> targetCenter \<Rightarrow> runState \<Rightarrow> runState" where
  "finishCity w inp cityIdx center s =
     (let s1 = (if batchLeads s \<noteq> []
                then (case enrichAll w inp (batchLeads s) s of
                        (leads, s') \<Rightarrow>
                          (saveLeadsIncremental leads [] (label center) s')\<lparr>batchLeads := []\<rparr>)
                else s);
          done = (case index center of
                    None \<Rightarrow> cityIdx
                  | Some i \<Rightarrow> if i \<noteq> 0 then i else cityIdx);
          s2 = s1\<lparr>checkpoint := (checkpoint s1)
                     \<lparr>processedCities := processedCities (checkpoint s1) @ [done]\<rparr>\<rparr>
      in saveCheckpoint (cityIdx + 1) 0 s2)"

text \<open>
  The loop over the target centers. \<^const>\<open>geoboxCentersOf\<close> always returns here, since the
  cell radius is 5000 whenever it is called with a radius above 5000.
\<close>

fun cityLoop :: "web \<Rightarrow> runInput \<Rightarrow> (nat \<times> targetCenter) list \<Rightarrow> runState \<Rightarrow> outcome" where
  "cityLoop w inp [] s = Done s"
| "cityLoop w inp ((cityIdx, center) # rest) s =
     (if (case index center of None \<Rightarrow> False | Some i \<Rightarrow> i < currentCityIndex (checkpoint s))
      then cityLoop w inp rest s
      else (case geoboxCentersOf (lat center) (lng center) (radiusMeters inp) of
              None \<Rightarrow> Failed NoReturn s
            | Some boxes \<Rightarrow>
                (case boxLoop w inp cityIdx center boxes (s\<lparr>batchLeads := []\<rparr>) of
                   Failed e s' \<Rightarrow> Failed e s'
                 | Done s' \<Rightarrow> cityLoop w inp rest (finishCity w inp cityIdx center s'))))"

text \<open>
  \<^verbatim>\<open>Actor.main\<close>, for the city list \<open>allCities\<close> (\<^verbatim>\<open>TOP_US_CITIES\<close>), the value \<open>stored\<close>
  of the checkpoint store and the content \<open>seen\<close> of the dedupe store at the start.
\<close>

definition initialState :: "web \<Rightarrow> runInput \<Rightarrow> checkpoint option \<Rightarrow> string list \<Rightarrow> runState" where
  "initialState w inp stored seen =
     \<lparr>rateLimiter = (if enableRateLimiting inp
                      then Some (newAPIRateLimiter (dailyCostLimit inp) (fst (callTimes w 0)))
                      else None),
      checkpoint = (case stored of None \<Rightarrow> initialCheckpoint | Some c \<Rightarrow> c),
      checkpointStore = stored,
      dataset = [], saveCounter = 0, allPlaces = [], dedupeStore = seen,
      skippedDueToCooldown = 0, batchLeads = [], requests = []\<rparr>"

definition runMain ::
    "web \<Rightarrow> runInput \<Rightarrow> string list \<Rightarrow> checkpoint option \<Rightarrow> string list \<Rightarrow> outcome" where
  "runMain w inp allCities stored seen =
     (let s0 = initialState w inp stored seen
      in if searchTerms inp = [] \<or> location inp = [] \<or> radiusMeters inp = 0
            \<or> maxPerTerm inp = 0
         then Failed InputRequired s0
         else (case targetCentersOf w inp allCities s0 of
                 (Inl e, s1) \<Rightarrow> Failed e s1
               | (Inr centers, s1) \<Rightarrow>
                   (case cityLoop w inp (enumerate centers) s1 of
                      Failed e s \<Rightarrow> Failed e s
                    | Done s \<Rightarrow> Done (s\<lparr>checkpointStore := Some initialCheckpoint\<rparr>))))"

section \<open>Observing a run\<close>

fun finalState :: "outcome \<Rightarrow> runState" where
  "finalState (Done s) = s"
| "finalState (Failed e s) = s"

fun failure :: "outcome \<Rightarrow> error option" where
  "failure (Done s) = None"
| "failure (Failed e s) = Some e"

text \<open>
  The search requests of a run, in order: for each the position of the city in the
  selected list and the position of the search term.
\<close>

definition searchedTerms :: "runState \<Rightarrow> (nat option \<times> nat) list" where
  "searchedTerms s =
     List.map_filter (\<lambda>r. case r of SearchRequest i c b t \<Rightarrow> Some (i, t) | _ \<Rightarrow> None)
                     (requests s)"

text \<open>
  Example runs. In \<open>barWeb\<close> the search for \<open>bar\<close> finds one place, which has a website
  and a phone number, and every other search finds nothing. \<open>tightInput\<close> has two search
  terms, a radius of one cell and a ceiling of 0.05 dollars (the double nearest to it),
  which the third call reaches; \<open>wideInput\<close> has a radius of 10000 m (13 cells for each city) and a ceiling of
  20 dollars.
\<close>

definition barPlace :: apiPlace where
  "barPlace =
     \<lparr>apiId = ''p1'', displayName = ''Bar One'', websiteUri = ''https://bar.example'',
      internationalPhoneNumber = ''+1 415-555-1234''\<rparr>"

definition barWeb :: web where
  "barWeb =
     silentWeb\<lparr>searchApi := (\<lambda>center radius term.
                                 if term = ''bar'' then LastPage [barPlace] else LastPage [])\<rparr>"

definition tightInput :: runInput where
  "tightInput =
     \<lparr>searchTerms = [''bar'', ''cafe''], location = ''city list'', radiusMeters = 1000,
      maxPerTerm = 20, enableRateLimiting = True, useTopUSCities = True,
      dailyCostLimit = toDouble (5 / 100), cohortCount = 1, cityCohortIndex = 0, persistDedupe = False,
      cooldownDays = 30\<rparr>"

definition wideInput :: runInput where
  "wideInput =
     \<lparr>searchTerms = [''bar'', ''cafe''], location = ''city list'', radiusMeters = 10000,
      maxPerTerm = 20, enableRateLimiting = True, useTopUSCities = True,
      dailyCostLimit = 20, cohortCount = 1, cityCohortIndex = 0, persistDedupe = False,
      cooldownDays = 30\<rparr>"

text \<open>A limiter that has made two calls under a ceiling of 0.05 dollars.\<close>

definition spentLimiter :: APIRateLimiter where
  "spentLimiter = (newAPIRateLimiter (toDouble (5 / 100)) 0)\<lparr>lastCallTime := 300, apiCalls := 2\<rparr>"

section \<open>Cohort Scheduler: slicing is a partition\<close>

lemma ceilDiv_covers:
  assumes "0 < k"
  shows "n \<le> k * ceilDiv n k"
proof -
  have "n + k - 1 < k * ((n + k - 1) div k) + k"
    using assms by (metis add.commute dividend_less_times_div mult.commute)
  then show ?thesis
    using assms by (simp add: ceilDiv_def)
qed

lemma cohort_as_take_drop:
  assumes "0 < k"
  shows "getCitiesForCohort xs i k =
         take (citiesPerCohort xs k) (drop (i * citiesPerCohort xs k) xs)"
proof -
  let ?c = "citiesPerCohort xs k"
  have "take (min (i * ?c + ?c) (length xs) - i * ?c) (drop (i * ?c) xs)
        = take ?c (drop (i * ?c) xs)"
    by (cases "i * ?c + ?c \<le> length xs") (simp_all add: min_def)
  then show ?thesis
    using assms by (simp add: getCitiesForCohort_def slice_def startIndex_def endIndex_def)
qed

lemma concat_chunks:
  "concat (map (\<lambda>i. take c (drop (i * c) xs)) [0..<n]) = take (n * c) xs"
proof (induction n)
  case 0
  show ?case by simp
next
  case (Suc n)
  have "Suc n * c = n * c + c" by simp
  then have "take (Suc n * c) xs = take (n * c) xs @ take c (drop (n * c) xs)"
    by (simp only: take_add)
  with Suc show ?case by simp
qed

lemma cohort_index_unique:
  assumes "0 < c" "i * c \<le> j" "j < i * c + c" "i' * c \<le> j" "j < i' * c + c"
  shows "i = (i'::nat)"
proof (rule ccontr)
  assume "i \<noteq> i'"
  then consider "i < i'" | "i' < i" by linarith
  then show False
  proof cases
    case 1
    then have "Suc i \<le> i'" by simp
    then have "Suc i * c \<le> i' * c" by (rule mult_le_mono1)
    with assms show False by simp
  next
    case 2
    then have "Suc i' \<le> i" by simp
    then have "Suc i' * c \<le> i * c" by (rule mult_le_mono1)
    with assms show False by simp
  qed
qed

text \<open>
  Claim C5. For every city list and every number of cohorts \<open>count\<close> (the argument
  \<^verbatim>\<open>cohortCount\<close>) between 1 and the length of the list, the cohorts
  \<open>0 .. count - 1\<close> concatenated in order are the list itself, and every position of the
  list lies in the index range of exactly one cohort, where the cohort holds the city of
  that position (also when the length is not a multiple of \<open>count\<close>).
\<close>

theorem getCitiesForCohort_partition:
  assumes "1 \<le> count" and "count \<le> length allCities"
  shows "concat (map (\<lambda>i. getCitiesForCohort allCities i count) [0..<count])
           = allCities
       \<and> (\<forall>j. j < length allCities \<longrightarrow>
            (\<exists>!i. i < count
                 \<and> startIndex allCities i count \<le> j
                 \<and> j < endIndex allCities i count
                 \<and> getCitiesForCohort allCities i count
                      ! (j - startIndex allCities i count) = allCities ! j))"
proof (intro conjI allI impI)
  let ?c = "citiesPerCohort allCities count"
  have kpos: "0 < count" using assms(1) by simp
  have cover: "length allCities \<le> count * ?c"
    unfolding citiesPerCohort_def using kpos by (rule ceilDiv_covers)
  have "concat (map (\<lambda>i. getCitiesForCohort allCities i count) [0..<count])
        = concat (map (\<lambda>i. take ?c (drop (i * ?c) allCities)) [0..<count])"
    using kpos by (simp add: cohort_as_take_drop)
  also have "\<dots> = take (count * ?c) allCities"
    by (rule concat_chunks)
  also have "\<dots> = allCities"
    using cover by simp
  finally show "concat (map (\<lambda>i. getCitiesForCohort allCities i count) [0..<count])
                  = allCities" .
next
  fix j
  assume j: "j < length allCities"
  let ?c = "citiesPerCohort allCities count"
  have kpos: "0 < count" using assms(1) by simp
  have cover: "length allCities \<le> count * ?c"
    unfolding citiesPerCohort_def using kpos by (rule ceilDiv_covers)
  have cpos: "0 < ?c"
  proof (rule ccontr)
    assume "\<not> 0 < ?c"
    with cover j show False by simp
  qed
  let ?i = "j div ?c"
  have lo: "?i * ?c \<le> j" by simp
  have hi: "j < ?i * ?c + ?c"
    using cpos by (metis add.commute dividend_less_times_div mult.commute)
  have ilt: "?i < count"
  proof (rule ccontr)
    assume "\<not> ?i < count"
    then have "count \<le> ?i" by simp
    then have "count * ?c \<le> ?i * ?c" by (rule mult_le_mono1)
    with lo cover j show False by linarith
  qed
  have elem: "getCitiesForCohort allCities i count ! (j - i * ?c) = allCities ! j"
    if "i * ?c \<le> j" "j < i * ?c + ?c" for i
    using that kpos j by (simp add: cohort_as_take_drop)
  show "\<exists>!i. i < count
           \<and> startIndex allCities i count \<le> j
           \<and> j < endIndex allCities i count
           \<and> getCitiesForCohort allCities i count
                ! (j - startIndex allCities i count) = allCities ! j"
  proof (rule ex1I [of _ ?i])
    show "?i < count
           \<and> startIndex allCities ?i count \<le> j
           \<and> j < endIndex allCities ?i count
           \<and> getCitiesForCohort allCities ?i count
                ! (j - startIndex allCities ?i count) = allCities ! j"
      using ilt lo hi j elem [OF lo hi] by (simp add: startIndex_def endIndex_def)
  next
    fix i
    assume a: "i < count
           \<and> startIndex allCities i count \<le> j
           \<and> j < endIndex allCities i count
           \<and> getCitiesForCohort allCities i count
                ! (j - startIndex allCities i count) = allCities ! j"
    then have "i * ?c \<le> j" and "j < i * ?c + ?c"
      by (simp_all add: startIndex_def endIndex_def)
    then show "i = ?i"
      using cpos lo hi by (rule_tac cohort_index_unique [of ?c i j ?i]) simp_all
  qed
qed

theorem getCitiesForCohort_partition_witness:
  "concat (map (\<lambda>i. getCitiesForCohort [''a'', ''b'', ''c'', ''d'', ''e''] i 3) [0..<3])
     = [''a'', ''b'', ''c'', ''d'', ''e'']
   \<and> getCitiesForCohort [''a'', ''b'', ''c'', ''d'', ''e''] 0 3 = [''a'', ''b'']
   \<and> getCitiesForCohort [''a'', ''b'', ''c'', ''d'', ''e''] 1 3 = [''c'', ''d'']
   \<and> getCitiesForCohort [''a'', ''b'', ''c'', ''d'', ''e''] 2 3 = [''e'']"
proof -
  have h1: "1 \<le> (3::nat)" by simp
  have h2: "(3::nat) \<le> length [''a'', ''b'', ''c'', ''d'', ''e'']" by simp
  have c: "citiesPerCohort [''a'', ''b'', ''c'', ''d'', ''e''] 3 = 2"
    by (simp add: citiesPerCohort_def ceilDiv_def)
  show ?thesis
    using getCitiesForCohort_partition [OF h1 h2]
    by (simp add: getCitiesForCohort_def slice_def startIndex_def endIndex_def c)
qed
section \<open>Phone normalisation: the shape of the result\<close>

lemma filter_isDigit_all: "list_all isDigit (filter isDigit s)"
  by (simp add: list_all_iff)

lemma normalizePhone_shape:
  assumes "input \<noteq> []"
  shows "isPlusDigits (normalizePhone input)"
  using assms filter_isDigit_all [of input]
  by (auto simp: normalizePhone_def isPlusDigits_def Let_def isDigit_def list_all_iff
           dest: in_set_dropD)

lemma normalizePhone_ten_digits:
  assumes "length (filter isDigit input) = 10"
  shows "normalizePhone input = ''+1'' @ filter isDigit input"
  using assms by (auto simp: normalizePhone_def Let_def)

lemma normalizePhone_country_code:
  assumes "length d = 10" and "filter isDigit input = CHR ''1'' # d"
  shows "normalizePhone input = ''+1'' @ d"
  using assms by (auto simp: normalizePhone_def Let_def)

text \<open>
  Claim C7, as stated, fails at the empty string: \<^verbatim>\<open>normalizePhone('')\<close> is the empty
  string, which does not start with \<open>+\<close>.
\<close>

theorem normalizePhone_empty_counterexample:
  "normalizePhone '''' = '''' \<and> \<not> isPlusDigits (normalizePhone '''')"
  by (simp add: normalizePhone_def isPlusDigits_def)

text \<open>
  Claim C7, amended. The empty string is returned as it is; for every non-empty input the
  result is \<open>+\<close> followed only by digits; and every written form of a ten-digit number
  \<open>d\<close> (any string whose digits, in order, are \<open>d\<close>, or \<open>1\<close> followed by \<open>d\<close>) is
  normalised to \<open>+1\<close> followed by \<open>d\<close>.
\<close>

theorem normalizePhone_canonical:
  "normalizePhone [] = []
   \<and> (input \<noteq> [] \<longrightarrow> isPlusDigits (normalizePhone input))
   \<and> (length d = 10 \<and> (filter isDigit input = d \<or> filter isDigit input = CHR ''1'' # d)
        \<longrightarrow> normalizePhone input = ''+1'' @ d)"
proof (intro conjI impI)
  show "normalizePhone [] = []" by (simp add: normalizePhone_def)
next
  assume "input \<noteq> []"
  then show "isPlusDigits (normalizePhone input)" by (rule normalizePhone_shape)
next
  assume a: "length d = 10 \<and> (filter isDigit input = d \<or> filter isDigit input = CHR ''1'' # d)"
  then consider "filter isDigit input = d" | "filter isDigit input = CHR ''1'' # d" by blast
  then show "normalizePhone input = ''+1'' @ d"
  proof cases
    case 1
    with a show ?thesis using normalizePhone_ten_digits [of input] by simp
  next
    case 2
    with a show ?thesis using normalizePhone_country_code [of d input] by simp
  qed
qed

theorem normalizePhone_canonical_witness:
  "normalizePhone ''(415) 555-1234'' = ''+14155551234''
   \<and> normalizePhone ''+1 415-555-1234'' = ''+14155551234''
   \<and> isPlusDigits (normalizePhone ''+44 20 7946 0958'')"
proof -
  have a: "normalizePhone ''(415) 555-1234'' = ''+14155551234''"
    using normalizePhone_canonical [of "''(415) 555-1234''" "''4155551234''"]
    by (simp add: isDigit_def)
  have b: "normalizePhone ''+1 415-555-1234'' = ''+14155551234''"
    using normalizePhone_canonical [of "''+1 415-555-1234''" "''4155551234''"]
    by (simp add: isDigit_def)
  have c: "isPlusDigits (normalizePhone ''+44 20 7946 0958'')"
    using normalizePhone_canonical [of "''+44 20 7946 0958''" "''''"]
    by simp
  from a b c show ?thesis by simp
qed

section \<open>Double-precision arithmetic: exponent, rounding, monotonicity\<close>

lemma two_powi_le:
  assumes "a \<le> b"
  shows "(2::rat) powi a \<le> 2 powi b"
  using assms by (intro power_int_increasing) simp_all

lemma two_powi_less_cancel:
  assumes "(2::rat) powi a < 2 powi b"
  shows "a < b"
proof (rule ccontr)
  assume "\<not> a < b"
  then have "b \<le> a" by simp
  then have "(2::rat) powi b \<le> 2 powi a" by (rule two_powi_le)
  with assms show False by simp
qed

lemma above_two_powi_pos:
  assumes "2 powi e \<le> (x::rat)"
  shows "0 < x"
proof -
  have "(0::rat) < 2 powi e" by simp
  then show ?thesis using assms by (rule less_le_trans)
qed

lemma int_between_powers:
  assumes "0 < (m::int)"
  shows "(2::rat) powi (bitlen m - 1) \<le> of_int m \<and> of_int m < (2::rat) powi (bitlen m)"
proof -
  have b: "1 \<le> bitlen m" using assms by (simp add: bitlen_alt_def)
  from bitlen_bounds [OF assms]
  have lo: "2 ^ nat (bitlen m - 1) \<le> m" and hi: "m < 2 ^ nat (bitlen m)" by simp_all
  have "(of_int (2 ^ nat (bitlen m - 1)) :: rat) \<le> of_int m"
    using lo by (simp only: of_int_le_iff)
  then have 1: "(2::rat) powi (bitlen m - 1) \<le> of_int m"
    using b by (simp add: power_int_nonneg_exp)
  have "(of_int m :: rat) < of_int (2 ^ nat (bitlen m))"
    using hi by (simp only: of_int_less_iff)
  then have 2: "of_int m < (2::rat) powi (bitlen m)"
    using b by (simp add: power_int_nonneg_exp)
  from 1 2 show ?thesis by simp
qed

lemma expo_bounds:
  assumes "0 < x"
  shows "2 powi (expo x) \<le> x \<and> x < 2 powi (expo x + 1)"
proof -
  obtain p q where pq: "quotient_of x = (p, q)" by (cases "quotient_of x")
  have q: "0 < q" using pq by (rule quotient_of_denom_pos)
  have x: "x = of_int p / of_int q" using pq by (rule quotient_of_div)
  have p: "0 < p" using assms q unfolding x by (simp add: zero_less_divide_iff)
  let ?k = "bitlen p - bitlen q"
  have P: "(2::rat) powi (bitlen p - 1) \<le> of_int p" "of_int p < (2::rat) powi (bitlen p)"
    using int_between_powers [OF p] by simp_all
  have Q: "(2::rat) powi (bitlen q - 1) \<le> of_int q" "of_int q < (2::rat) powi (bitlen q)"
    using int_between_powers [OF q] by simp_all
  have qpos: "(0::rat) < of_int q" using q by simp
  have A: "x < 2 powi (?k + 1)"
  proof -
    have "of_int p < (2::rat) powi (?k + 1) * 2 powi (bitlen q - 1)"
      using P(2) by (simp add: power_int_add [symmetric])
    also have "\<dots> \<le> 2 powi (?k + 1) * of_int q"
      using Q(1) by (intro mult_left_mono) simp_all
    finally show ?thesis unfolding x using qpos by (simp add: pos_divide_less_eq)
  qed
  have B: "2 powi (?k - 1) < x"
  proof -
    have "(2::rat) powi (?k - 1) * of_int q < 2 powi (?k - 1) * 2 powi (bitlen q)"
      using Q(2) by (intro mult_strict_left_mono) simp_all
    also have "\<dots> = 2 powi (bitlen p - 1)"
      by (simp add: power_int_add [symmetric])
    also have "\<dots> \<le> of_int p" by (rule P(1))
    finally show ?thesis unfolding x using qpos by (simp add: pos_less_divide_eq)
  qed
  show ?thesis
  proof (cases "2 powi ?k \<le> x")
    case True
    then have "expo x = ?k" by (simp add: expo_def pq)
    with True A show ?thesis by simp
  next
    case False
    then have e: "expo x = ?k - 1" by (simp add: expo_def pq)
    from False have "x < 2 powi ?k" by simp
    with B e show ?thesis by simp
  qed
qed

lemma expo_eqI:
  assumes "2 powi e \<le> x" and "x < 2 powi (e + 1)"
  shows "expo x = e"
proof -
  have pos: "0 < x" using assms(1) by (rule above_two_powi_pos)
  from expo_bounds [OF pos]
  have lo: "2 powi (expo x) \<le> x" and hi: "x < 2 powi (expo x + 1)" by simp_all
  have "(2::rat) powi e < 2 powi (expo x + 1)" using assms(1) hi by simp
  then have 1: "e < expo x + 1" by (rule two_powi_less_cancel)
  have "(2::rat) powi (expo x) < 2 powi (e + 1)" using lo assms(2) by simp
  then have 2: "expo x < e + 1" by (rule two_powi_less_cancel)
  from 1 2 show ?thesis by simp
qed

lemma roundHalfEven_eqI:
  assumes "\<bar>q - of_int m\<bar> < 1 / 2"
  shows "roundHalfEven q = m"
proof -
  from assms have lo: "of_int m - 1 / 2 < q" and hi: "q < of_int m + 1 / 2" by linarith+
  consider "\<lfloor>q\<rfloor> = m" | "\<lfloor>q\<rfloor> = m - 1"
  proof -
    have "of_int (m - 1) \<le> q" using lo by simp
    then have "m - 1 \<le> \<lfloor>q\<rfloor>" by (simp only: le_floor_iff)
    moreover have "q < of_int (m + 1)" using hi by simp
    then have "\<lfloor>q\<rfloor> < m + 1" by (simp only: floor_less_iff)
    ultimately have "\<lfloor>q\<rfloor> = m \<or> \<lfloor>q\<rfloor> = m - 1" by linarith
    then show ?thesis using that by blast
  qed
  then show ?thesis
  proof cases
    case 1
    then have "q - of_int \<lfloor>q\<rfloor> < 1 / 2" using hi by simp
    with 1 show ?thesis by (simp add: roundHalfEven_def Let_def)
  next
    case 2
    then have "1 / 2 < q - of_int \<lfloor>q\<rfloor>" using lo by simp
    with 2 show ?thesis by (simp add: roundHalfEven_def Let_def)
  qed
qed

lemma roundHalfEven_nearest:
  assumes "\<bar>q - of_int m\<bar> \<le> 1 / 2" and "\<bar>q - of_int m\<bar> = 1 / 2 \<Longrightarrow> even m"
  shows "roundHalfEven q = m"
proof (cases "\<bar>q - of_int m\<bar> < 1 / 2")
  case True
  then show ?thesis by (rule roundHalfEven_eqI)
next
  case False
  with assms(1) have t: "\<bar>q - of_int m\<bar> = 1 / 2" by simp
  then have ev: "even m" by (rule assms(2))
  from t consider "q = of_int m + 1 / 2" | "q = of_int m - 1 / 2" by linarith
  then show ?thesis
  proof cases
    case 1
    have "\<lfloor>q\<rfloor> = m" unfolding 1 by (simp add: floor_unique)
    with 1 ev show ?thesis by (simp add: roundHalfEven_def Let_def)
  next
    case 2
    have "\<lfloor>q\<rfloor> = m - 1" unfolding 2 by (rule floor_unique) simp_all
    with 2 ev show ?thesis by (simp add: roundHalfEven_def Let_def)
  qed
qed

lemma toDouble_eqI:
  assumes "2 powi e \<le> x" and "x < 2 powi (e + 1)" and "u = 2 powi (e - 52)"
    and "\<bar>x / u - of_int m\<bar> \<le> 1 / 2" and "\<bar>x / u - of_int m\<bar> = 1 / 2 \<Longrightarrow> even m"
  shows "toDouble x = of_int m * u"
proof -
  have pos: "0 < x" using assms(1) by (rule above_two_powi_pos)
  have e: "expo x = e" using assms(1,2) by (rule expo_eqI)
  have r: "roundHalfEven (x / u) = m" using assms(4,5) by (rule roundHalfEven_nearest)
  show ?thesis using pos e r assms(3) by (simp add: toDouble_def Let_def)
qed

lemma roundHalfEven_between: "\<lfloor>q\<rfloor> \<le> roundHalfEven q \<and> roundHalfEven q \<le> \<lfloor>q\<rfloor> + 1"
  by (simp add: roundHalfEven_def Let_def)

lemma roundHalfEven_mono:
  assumes "q \<le> q'"
  shows "roundHalfEven q \<le> roundHalfEven q'"
proof -
  have fl: "\<lfloor>q\<rfloor> \<le> \<lfloor>q'\<rfloor>" using assms by (rule floor_mono)
  show ?thesis
  proof (cases "\<lfloor>q\<rfloor> = \<lfloor>q'\<rfloor>")
    case False
    with fl have "\<lfloor>q\<rfloor> + 1 \<le> \<lfloor>q'\<rfloor>" by simp
    then show ?thesis
      using roundHalfEven_between [of q] roundHalfEven_between [of q'] by linarith
  next
    case True
    then have "q - of_int \<lfloor>q\<rfloor> \<le> q' - of_int \<lfloor>q'\<rfloor>" using assms by simp
    with True show ?thesis
      by (auto simp: roundHalfEven_def Let_def)
  qed
qed

lemma toDouble_pos_form:
  assumes "0 < x"
  shows "toDouble x = of_int (roundHalfEven (x / 2 powi (expo x - 52))) * 2 powi (expo x - 52)"
  using assms by (simp add: toDouble_def Let_def)

lemma scaled_range:
  assumes "0 < x"
  shows "2 ^ 52 \<le> x / 2 powi (expo x - 52) \<and> x / 2 powi (expo x - 52) < 2 ^ 53"
proof -
  from expo_bounds [OF assms]
  have lo: "2 powi (expo x) \<le> x" and hi: "x < 2 powi (expo x + 1)" by simp_all
  have u: "(0::rat) < 2 powi (expo x - 52)" by simp
  have "(2::rat) ^ 52 * 2 powi (expo x - 52) = 2 powi (52 + (expo x - 52))"
    by (subst power_int_add) simp_all
  then have a: "(2::rat) ^ 52 * 2 powi (expo x - 52) = 2 powi (expo x)" by simp
  have "(2::rat) ^ 53 * 2 powi (expo x - 52) = 2 powi (53 + (expo x - 52))"
    by (subst power_int_add) simp_all
  then have b: "(2::rat) ^ 53 * 2 powi (expo x - 52) = 2 powi (expo x + 1)"
    by (simp add: add.commute)
  have 1: "2 ^ 52 \<le> x / 2 powi (expo x - 52)"
    using lo u a by (simp only: pos_le_divide_eq)
  have 2: "x / 2 powi (expo x - 52) < 2 ^ 53"
    using hi u b by (simp only: pos_divide_less_eq)
  from 1 2 show ?thesis by simp
qed

lemma toDouble_in_binade:
  assumes "0 < x"
  shows "2 powi (expo x) \<le> toDouble x \<and> toDouble x \<le> 2 powi (expo x + 1)"
proof -
  let ?u = "(2::rat) powi (expo x - 52)"
  let ?q = "x / ?u"
  from scaled_range [OF assms] have lo: "2 ^ 52 \<le> ?q" and hi: "?q < 2 ^ 53" by simp_all
  have "(of_int (2 ^ 52) :: rat) \<le> ?q" using lo by simp
  then have "(2::int) ^ 52 \<le> \<lfloor>?q\<rfloor>" by (simp only: le_floor_iff)
  then have m1: "(2::int) ^ 52 \<le> roundHalfEven ?q"
    using roundHalfEven_between [of ?q] by linarith
  have "?q < of_int (2 ^ 53)" using hi by simp
  then have "\<lfloor>?q\<rfloor> < (2::int) ^ 53" by (simp only: floor_less_iff)
  then have m2: "roundHalfEven ?q \<le> (2::int) ^ 53"
    using roundHalfEven_between [of ?q] by linarith
  have u: "(0::rat) < ?u" by simp
  have a: "(2::rat) ^ 52 * ?u = 2 powi (expo x)"
  proof -
    have "(2::rat) ^ 52 * ?u = 2 powi (52 + (expo x - 52))"
      by (subst power_int_add) simp_all
    then show ?thesis by simp
  qed
  have b: "(2::rat) ^ 53 * ?u = 2 powi (expo x + 1)"
  proof -
    have "(2::rat) ^ 53 * ?u = 2 powi (53 + (expo x - 52))"
      by (subst power_int_add) simp_all
    then show ?thesis by (simp add: add.commute)
  qed
  have "(of_int (2 ^ 52) :: rat) \<le> of_int (roundHalfEven ?q)"
    using m1 by (simp only: of_int_le_iff)
  then have "(2::rat) ^ 52 * ?u \<le> of_int (roundHalfEven ?q) * ?u"
    using u by (intro mult_right_mono) simp_all
  then have 1: "2 powi (expo x) \<le> toDouble x"
    unfolding toDouble_pos_form [OF assms] a .
  have "(of_int (roundHalfEven ?q) :: rat) \<le> of_int (2 ^ 53)"
    using m2 by (simp only: of_int_le_iff)
  then have "of_int (roundHalfEven ?q) * ?u \<le> (2::rat) ^ 53 * ?u"
    using u by (intro mult_right_mono) simp_all
  then have 2: "toDouble x \<le> 2 powi (expo x + 1)"
    unfolding toDouble_pos_form [OF assms] b .
  from 1 2 show ?thesis by simp
qed

lemma expo_mono:
  assumes "0 < x" and "x \<le> y"
  shows "expo x \<le> expo y"
proof -
  have y: "0 < y" using assms by simp
  from expo_bounds [OF assms(1)] have "2 powi (expo x) \<le> x" by simp
  also note assms(2)
  also from expo_bounds [OF y] have "y < 2 powi (expo y + 1)" by simp
  finally have "(2::rat) powi (expo x) < 2 powi (expo y + 1)" .
  then have "expo x < expo y + 1" by (rule two_powi_less_cancel)
  then show ?thesis by simp
qed

lemma toDouble_mono_pos:
  assumes "0 < x" and "x \<le> y"
  shows "toDouble x \<le> toDouble y"
proof -
  have y: "0 < y" using assms by simp
  have e: "expo x \<le> expo y" using assms by (rule expo_mono)
  show ?thesis
  proof (cases "expo x = expo y")
    case True
    let ?u = "(2::rat) powi (expo y - 52)"
    have u: "(0::rat) < ?u" by simp
    have "x / ?u \<le> y / ?u" using assms(2) u by (simp add: divide_right_mono)
    then have "roundHalfEven (x / ?u) \<le> roundHalfEven (y / ?u)"
      by (rule roundHalfEven_mono)
    then have "(of_int (roundHalfEven (x / ?u)) :: rat) \<le> of_int (roundHalfEven (y / ?u))"
      by (simp only: of_int_le_iff)
    then have "of_int (roundHalfEven (x / ?u)) * ?u \<le> of_int (roundHalfEven (y / ?u)) * ?u"
      using u by (intro mult_right_mono) simp_all
    then show ?thesis
      unfolding toDouble_pos_form [OF assms(1)] toDouble_pos_form [OF y] True .
  next
    case False
    with e have "expo x + 1 \<le> expo y" by simp
    then have "(2::rat) powi (expo x + 1) \<le> 2 powi (expo y)" by (rule two_powi_le)
    moreover from toDouble_in_binade [OF assms(1)] have "toDouble x \<le> 2 powi (expo x + 1)" by simp
    moreover from toDouble_in_binade [OF y] have "2 powi (expo y) \<le> toDouble y" by simp
    ultimately show ?thesis by linarith
  qed
qed

lemma toDouble_nonneg:
  assumes "0 \<le> x"
  shows "0 \<le> toDouble x"
proof (cases "x = 0")
  case True
  then show ?thesis by (simp add: toDouble_def)
next
  case False
  with assms have p: "0 < x" by simp
  have "(0::rat) < 2 powi (expo x)" by simp
  with toDouble_in_binade [OF p] show ?thesis by linarith
qed

lemma toDouble_mono:
  assumes "0 \<le> x" and "x \<le> y"
  shows "toDouble x \<le> toDouble y"
proof (cases "x = 0")
  case True
  have "0 \<le> toDouble y" using assms by (intro toDouble_nonneg) simp
  with True show ?thesis by (simp add: toDouble_def)
next
  case False
  with assms have "0 < x" by simp
  then show ?thesis using assms(2) by (rule toDouble_mono_pos)
qed

text \<open>
  Checking a rounded value: \<open>m\<close> is the significand, an integer nearest to the scaled \<open>x\<close>
  and even when \<open>x\<close> lies halfway. Below 1 the exponent is \<open>- k\<close>, from 1 on it is \<open>k\<close>.
\<close>

lemma toDouble_below_one:
  assumes "1 / 2 ^ k \<le> x" and "x < 2 / 2 ^ k"
    and "\<bar>x * 2 ^ (k + 52) - of_int m\<bar> \<le> 1 / 2"
    and "\<bar>x * 2 ^ (k + 52) - of_int m\<bar> = 1 / 2 \<Longrightarrow> even m"
    and "y = of_int m / 2 ^ (k + 52)"
  shows "toDouble x = y"
proof -
  have e: "(2::rat) powi (- int k) = 1 / 2 ^ k"
    by (simp add: power_int_minus_divide)
  have e1: "(2::rat) powi (- int k + 1) = 2 / 2 ^ k"
  proof -
    have "(2::rat) powi (- int k + 1) = 2 powi (- int k) * 2 powi 1"
      by (rule power_int_add) simp
    then show ?thesis by (simp only: e) simp
  qed
  have u: "(2::rat) powi (- int k - 52) = 1 / 2 ^ (k + 52)"
  proof -
    have "- int k - 52 = - int (k + 52)" by simp
    then show ?thesis by (simp only: power_int_minus_divide power_int_of_nat)
  qed
  have s: "x / (1 / 2 ^ (k + 52)) = x * 2 ^ (k + 52)" by simp
  have "toDouble x = of_int m * 2 powi (- int k - 52)"
  proof (rule toDouble_eqI [where e = "- int k"])
    show "2 powi (- int k) \<le> x" using assms(1) by (simp only: e)
    show "x < 2 powi (- int k + 1)" using assms(2) by (simp only: e1)
    show "(2::rat) powi (- int k - 52) = 2 powi (- int k - 52)" by (rule refl)
    show "\<bar>x / 2 powi (- int k - 52) - of_int m\<bar> \<le> 1 / 2"
      using assms(3) by (simp only: u s)
    show "even m" if "\<bar>x / 2 powi (- int k - 52) - of_int m\<bar> = 1 / 2"
      using that assms(4) by (simp only: u s)
  qed
  then show ?thesis using assms(5) by (simp only: u) simp
qed

lemma toDouble_from_one:
  assumes "2 ^ k \<le> x" and "x < 2 * 2 ^ k" and "k \<le> 52"
    and "\<bar>x * 2 ^ (52 - k) - of_int m\<bar> \<le> 1 / 2"
    and "\<bar>x * 2 ^ (52 - k) - of_int m\<bar> = 1 / 2 \<Longrightarrow> even m"
    and "y = of_int m / 2 ^ (52 - k)"
  shows "toDouble x = y"
proof -
  have e: "(2::rat) powi (int k) = 2 ^ k" by simp
  have e1: "(2::rat) powi (int k + 1) = 2 * 2 ^ k"
    by (simp add: power_int_add)
  have u: "(2::rat) powi (int k - 52) = 1 / 2 ^ (52 - k)"
  proof -
    have "int k - 52 = - int (52 - k)" using assms(3) by simp
    then show ?thesis by (simp only: power_int_minus_divide power_int_of_nat)
  qed
  have s: "x / (1 / 2 ^ (52 - k)) = x * 2 ^ (52 - k)" by simp
  have "toDouble x = of_int m * 2 powi (int k - 52)"
  proof (rule toDouble_eqI [where e = "int k"])
    show "2 powi (int k) \<le> x" using assms(1) by (simp only: e)
    show "x < 2 powi (int k + 1)" using assms(2) by (simp only: e1)
    show "(2::rat) powi (int k - 52) = 2 powi (int k - 52)" by (rule refl)
    show "\<bar>x / 2 powi (int k - 52) - of_int m\<bar> \<le> 1 / 2"
      using assms(4) by (simp only: u s)
    show "even m" if "\<bar>x / 2 powi (int k - 52) - of_int m\<bar> = 1 / 2"
      using that assms(5) by (simp only: u s)
  qed
  then show ?thesis using assms(6) by (simp only: u) simp
qed

text \<open>The relative error of one rounding is at most \<open>1 / 2 ^ 53\<close>.\<close>

lemma roundHalfEven_close: "\<bar>of_int (roundHalfEven q) - q\<bar> \<le> 1 / 2"
proof -
  let ?r = "q - of_int \<lfloor>q\<rfloor>"
  have r: "0 \<le> ?r" "?r < 1" by linarith+
  consider "?r < 1 / 2" | "1 / 2 < ?r" | "?r = 1 / 2" by linarith
  then show ?thesis
  proof cases
    case 1
    then have e: "roundHalfEven q = \<lfloor>q\<rfloor>" by (simp add: roundHalfEven_def Let_def)
    show ?thesis unfolding e using 1 r by linarith
  next
    case 2
    then have e: "roundHalfEven q = \<lfloor>q\<rfloor> + 1" by (simp add: roundHalfEven_def Let_def)
    show ?thesis unfolding e of_int_add of_int_1 using 2 r by linarith
  next
    case 3
    then have "roundHalfEven q = \<lfloor>q\<rfloor> \<or> roundHalfEven q = \<lfloor>q\<rfloor> + 1"
      by (simp add: roundHalfEven_def Let_def)
    then show ?thesis
    proof
      assume e: "roundHalfEven q = \<lfloor>q\<rfloor>"
      show ?thesis unfolding e using 3 by linarith
    next
      assume e: "roundHalfEven q = \<lfloor>q\<rfloor> + 1"
      show ?thesis unfolding e of_int_add of_int_1 using 3 by linarith
    qed
  qed
qed

lemma toDouble_error:
  assumes "0 \<le> x"
  shows "\<bar>toDouble x - x\<bar> \<le> x / 2 ^ 53"
proof (cases "x = 0")
  case True
  then show ?thesis by (simp add: toDouble_def)
next
  case False
  with assms have pos: "0 < x" by simp
  let ?u = "(2::rat) powi (expo x - 52)"
  have u: "0 < ?u" by simp
  have "\<bar>toDouble x - x\<bar> = \<bar>of_int (roundHalfEven (x / ?u)) - x / ?u\<bar> * ?u"
  proof -
    have "toDouble x - x = (of_int (roundHalfEven (x / ?u)) - x / ?u) * ?u"
      using u by (simp add: toDouble_pos_form [OF pos] left_diff_distrib)
    then show ?thesis using u by (simp add: abs_mult)
  qed
  also have "\<dots> \<le> 1 / 2 * ?u"
    using roundHalfEven_close [of "x / ?u"] u by (intro mult_right_mono) simp_all
  also have "\<dots> = 2 powi (expo x) / 2 ^ 53"
  proof -
    have "(2::rat) powi (expo x + (- 52)) = 2 powi (expo x) * 2 powi (- 52)"
      by (rule power_int_add) simp
    then have "?u = 2 powi (expo x) * 2 powi (- 52)" by simp
    then show ?thesis by (simp add: power_int_minus_divide)
  qed
  also have "\<dots> \<le> x / 2 ^ 53"
    using expo_bounds [OF pos] by (simp add: divide_right_mono)
  finally show ?thesis .
qed

lemma toDouble_within:
  assumes "0 \<le> l" and "l \<le> x" and "x \<le> h"
  shows "l * (1 - 1 / 2 ^ 53) \<le> toDouble x \<and> toDouble x \<le> h * (1 + 1 / 2 ^ 53)"
proof -
  have x: "0 \<le> x" using assms by simp
  have "\<bar>toDouble x - x\<bar> \<le> x / 2 ^ 53" using x by (rule toDouble_error)
  then have lo: "x - x / 2 ^ 53 \<le> toDouble x" and hi: "toDouble x \<le> x + x / 2 ^ 53"
    by linarith+
  have "l * (1 - 1 / 2 ^ 53) \<le> x * (1 - 1 / 2 ^ 53)"
    using assms(2) by (intro mult_right_mono) simp_all
  also have "\<dots> = x - x / 2 ^ 53" by (simp add: algebra_simps)
  finally have 1: "l * (1 - 1 / 2 ^ 53) \<le> toDouble x" using lo by simp
  have "x + x / 2 ^ 53 = x * (1 + 1 / 2 ^ 53)" by (simp add: algebra_simps)
  also have "\<dots> \<le> h * (1 + 1 / 2 ^ 53)"
    using assms(3) by (intro mult_right_mono) simp_all
  finally have 2: "toDouble x \<le> h * (1 + 1 / 2 ^ 53)" using hi by simp
  from 1 2 show ?thesis by simp
qed

section \<open>Cost Guard: the estimate in double arithmetic\<close>

text \<open>The three shares of the call counter, as doubles.\<close>

lemma six_tenths: "toDouble (6 / 10) = 5404319552844595 / 9007199254740992"
  by (rule toDouble_below_one [where k = 1 and m = 5404319552844595]) simp_all

lemma thirty_five_hundredths: "toDouble (35 / 100) = 3152519739159347 / 9007199254740992"
  by (rule toDouble_below_one [where k = 2 and m = 6305039478318694]) simp_all

lemma five_hundredths: "toDouble (5 / 100) = 3602879701896397 / 72057594037927936"
  by (rule toDouble_below_one [where k = 5 and m = 7205759403792794]) simp_all

lemmas double_literals = six_tenths thirty_five_hundredths five_hundredths

text \<open>The estimate at some values of the call counter, one rounding after the other.\<close>

lemma estimateCost_at_0:
  assumes "apiCalls rl = 0"
  shows "estimateCost rl = 0"
  using assms by (simp add: estimateCost_def toDouble_def)

lemma estimateCost_at_1:
  assumes "apiCalls rl = 1"
  shows "estimateCost rl = 3660525777126739 / 144115188075855872"
proof -
  have ts: "toDouble (1 * (5404319552844595 / 9007199254740992)) = 5404319552844595 / 9007199254740992"
    by (rule toDouble_below_one [where k = 1 and m = 5404319552844595]) simp_all
  have pd: "toDouble (1 * (3152519739159347 / 9007199254740992)) = 3152519739159347 / 9007199254740992"
    by (rule toDouble_below_one [where k = 2 and m = 6305039478318694]) simp_all
  have gc: "toDouble (1 * (3602879701896397 / 72057594037927936)) = 3602879701896397 / 72057594037927936"
    by (rule toDouble_below_one [where k = 5 and m = 7205759403792794]) simp_all
  have tq: "toDouble ((5404319552844595 / 9007199254740992) / 1000) = 5534023222112865 / 9223372036854775808"
    by (rule toDouble_below_one [where k = 11 and m = 5534023222112865]) simp_all
  have tc: "toDouble ((5534023222112865 / 9223372036854775808) * 32) = 5534023222112865 / 288230376151711744"
    by (rule toDouble_below_one [where k = 6 and m = 5534023222112865]) simp_all
  have pq: "toDouble ((3152519739159347 / 9007199254740992) / 1000) = 6456360425798343 / 18446744073709551616"
    by (rule toDouble_below_one [where k = 12 and m = 6456360425798343]) simp_all
  have pc: "toDouble ((6456360425798343 / 18446744073709551616) * 17) = 6859882952410739 / 1152921504606846976"
    by (rule toDouble_below_one [where k = 8 and m = 6859882952410739]) simp_all
  have gq: "toDouble ((3602879701896397 / 72057594037927936) / 1000) = 7378697629483821 / 147573952589676412928"
    by (rule toDouble_below_one [where k = 15 and m = 7378697629483821]) simp_all
  have gk: "toDouble ((7378697629483821 / 147573952589676412928) * 5) = 1152921504606847 / 4611686018427387904"
    by (rule toDouble_below_one [where k = 12 and m = 4611686018427388]) simp_all
  have s1: "toDouble ((5534023222112865 / 288230376151711744) + (6859882952410739 / 1152921504606846976)) = 3624496980107775 / 144115188075855872"
    by (rule toDouble_below_one [where k = 6 and m = 7248993960215550]) simp_all
  have s2: "toDouble ((3624496980107775 / 144115188075855872) + (1152921504606847 / 4611686018427387904)) = 3660525777126739 / 144115188075855872"
    by (rule toDouble_below_one [where k = 6 and m = 7321051554253478]) simp_all
  show ?thesis
    unfolding estimateCost_def Let_def
    by (simp only: assms of_nat_1 double_literals ts pd gc tq tc pq pc gq gk s1 s2)
qed

lemma estimateCost_at_2:
  assumes "apiCalls rl = 2"
  shows "estimateCost rl = 3660525777126739 / 72057594037927936"
proof -
  have ts: "toDouble (2 * (5404319552844595 / 9007199254740992)) = 5404319552844595 / 4503599627370496"
    by (rule toDouble_from_one [where k = 0 and m = 5404319552844595]) simp_all
  have pd: "toDouble (2 * (3152519739159347 / 9007199254740992)) = 3152519739159347 / 4503599627370496"
    by (rule toDouble_below_one [where k = 1 and m = 6305039478318694]) simp_all
  have gc: "toDouble (2 * (3602879701896397 / 72057594037927936)) = 3602879701896397 / 36028797018963968"
    by (rule toDouble_below_one [where k = 4 and m = 7205759403792794]) simp_all
  have tq: "toDouble ((5404319552844595 / 4503599627370496) / 1000) = 5534023222112865 / 4611686018427387904"
    by (rule toDouble_below_one [where k = 10 and m = 5534023222112865]) simp_all
  have tc: "toDouble ((5534023222112865 / 4611686018427387904) * 32) = 5534023222112865 / 144115188075855872"
    by (rule toDouble_below_one [where k = 5 and m = 5534023222112865]) simp_all
  have pq: "toDouble ((3152519739159347 / 4503599627370496) / 1000) = 6456360425798343 / 9223372036854775808"
    by (rule toDouble_below_one [where k = 11 and m = 6456360425798343]) simp_all
  have pc: "toDouble ((6456360425798343 / 9223372036854775808) * 17) = 6859882952410739 / 576460752303423488"
    by (rule toDouble_below_one [where k = 7 and m = 6859882952410739]) simp_all
  have gq: "toDouble ((3602879701896397 / 36028797018963968) / 1000) = 7378697629483821 / 73786976294838206464"
    by (rule toDouble_below_one [where k = 14 and m = 7378697629483821]) simp_all
  have gk: "toDouble ((7378697629483821 / 73786976294838206464) * 5) = 1152921504606847 / 2305843009213693952"
    by (rule toDouble_below_one [where k = 11 and m = 4611686018427388]) simp_all
  have s1: "toDouble ((5534023222112865 / 144115188075855872) + (6859882952410739 / 576460752303423488)) = 3624496980107775 / 72057594037927936"
    by (rule toDouble_below_one [where k = 5 and m = 7248993960215550]) simp_all
  have s2: "toDouble ((3624496980107775 / 72057594037927936) + (1152921504606847 / 2305843009213693952)) = 3660525777126739 / 72057594037927936"
    by (rule toDouble_below_one [where k = 5 and m = 7321051554253478]) simp_all
  show ?thesis
    unfolding estimateCost_def Let_def
    by (simp only: assms of_nat_numeral double_literals ts pd gc tq tc pq pc gq gk s1 s2)
qed

lemma estimateCost_at_13:
  assumes "apiCalls rl = 13"
  shows "estimateCost rl = 2974177193915475 / 9007199254740992"
proof -
  have ts: "toDouble (13 * (5404319552844595 / 9007199254740992)) = 8782019273372467 / 1125899906842624"
    by (rule toDouble_from_one [where k = 2 and m = 8782019273372467]) simp_all
  have pd: "toDouble (13 * (3152519739159347 / 9007199254740992)) = 5122844576133939 / 1125899906842624"
    by (rule toDouble_from_one [where k = 2 and m = 5122844576133939]) simp_all
  have gc: "toDouble (13 * (3602879701896397 / 72057594037927936)) = 5854679515581645 / 9007199254740992"
    by (rule toDouble_below_one [where k = 1 and m = 5854679515581645]) simp_all
  have tq: "toDouble ((8782019273372467 / 1125899906842624) / 1000) = 4496393867966703 / 576460752303423488"
    by (rule toDouble_below_one [where k = 8 and m = 8992787735933406]) simp_all
  have tc: "toDouble ((4496393867966703 / 576460752303423488) * 32) = 4496393867966703 / 18014398509481984"
    by (rule toDouble_below_one [where k = 3 and m = 8992787735933406]) simp_all
  have pq: "toDouble ((5122844576133939 / 1125899906842624) / 1000) = 2622896422980577 / 576460752303423488"
    by (rule toDouble_below_one [where k = 8 and m = 5245792845961154]) simp_all
  have pc: "toDouble ((2622896422980577 / 576460752303423488) * 17) = 2786827449416863 / 36028797018963968"
    by (rule toDouble_below_one [where k = 4 and m = 5573654898833726]) simp_all
  have gq: "toDouble ((5854679515581645 / 9007199254740992) / 1000) = 1498797955988901 / 2305843009213693952"
    by (rule toDouble_below_one [where k = 11 and m = 5995191823955604]) simp_all
  have gk: "toDouble ((1498797955988901 / 2305843009213693952) * 5) = 7493989779944505 / 2305843009213693952"
    by (rule toDouble_below_one [where k = 9 and m = 7493989779944505]) simp_all
  have s1: "toDouble ((4496393867966703 / 18014398509481984) + (2786827449416863 / 36028797018963968)) = 2944903796337567 / 9007199254740992"
    by (rule toDouble_below_one [where k = 2 and m = 5889807592675134]) simp_all
  have s2: "toDouble ((2944903796337567 / 9007199254740992) + (7493989779944505 / 2305843009213693952)) = 2974177193915475 / 9007199254740992"
    by (rule toDouble_below_one [where k = 2 and m = 5948354387830950]) simp_all
  show ?thesis
    unfolding estimateCost_def Let_def
    by (simp only: assms of_nat_numeral double_literals ts pd gc tq tc pq pc gq gk s1 s2)
qed

lemma estimateCost_at_50:
  assumes "apiCalls rl = 50"
  shows "estimateCost rl = 2859785763380265 / 2251799813685248"
proof -
  have ts: "toDouble (50 * (5404319552844595 / 9007199254740992)) = 30"
    by (rule toDouble_from_one [where k = 4 and m = 8444249301319680]) simp_all
  have pd: "toDouble (50 * (3152519739159347 / 9007199254740992)) = 35 / 2"
    by (rule toDouble_from_one [where k = 4 and m = 4925812092436480]) simp_all
  have gc: "toDouble (50 * (3602879701896397 / 72057594037927936)) = 5 / 2"
    by (rule toDouble_from_one [where k = 1 and m = 5629499534213120]) simp_all
  have tq: "toDouble (30 / 1000) = 1080863910568919 / 36028797018963968"
    by (rule toDouble_below_one [where k = 6 and m = 8646911284551352]) simp_all
  have tc: "toDouble ((1080863910568919 / 36028797018963968) * 32) = 1080863910568919 / 1125899906842624"
    by (rule toDouble_below_one [where k = 1 and m = 8646911284551352]) simp_all
  have pq: "toDouble ((35 / 2) / 1000) = 1261007895663739 / 72057594037927936"
    by (rule toDouble_below_one [where k = 6 and m = 5044031582654956]) simp_all
  have pc: "toDouble ((1261007895663739 / 72057594037927936) * 17) = 5359283556570891 / 18014398509481984"
    by (rule toDouble_below_one [where k = 2 and m = 5359283556570891]) simp_all
  have gq: "toDouble ((5 / 2) / 1000) = 5764607523034235 / 2305843009213693952"
    by (rule toDouble_below_one [where k = 9 and m = 5764607523034235]) simp_all
  have gk: "toDouble ((5764607523034235 / 2305843009213693952) * 5) = 3602879701896397 / 288230376151711744"
    by (rule toDouble_below_one [where k = 7 and m = 7205759403792794]) simp_all
  have s1: "toDouble ((1080863910568919 / 1125899906842624) + (5359283556570891 / 18014398509481984)) = 5663276531418399 / 4503599627370496"
    by (rule toDouble_from_one [where k = 0 and m = 5663276531418399]) simp_all
  have s2: "toDouble ((5663276531418399 / 4503599627370496) + (3602879701896397 / 288230376151711744)) = 2859785763380265 / 2251799813685248"
    by (rule toDouble_from_one [where k = 0 and m = 5719571526760530]) simp_all
  show ?thesis
    unfolding estimateCost_def Let_def
    by (simp only: assms of_nat_numeral double_literals ts pd gc tq tc pq pc gq gk s1 s2)
qed

lemma estimateCost_at_100:
  assumes "apiCalls rl = 100"
  shows "estimateCost rl = 2859785763380265 / 1125899906842624"
proof -
  have ts: "toDouble (100 * (5404319552844595 / 9007199254740992)) = 60"
    by (rule toDouble_from_one [where k = 5 and m = 8444249301319680]) simp_all
  have pd: "toDouble (100 * (3152519739159347 / 9007199254740992)) = 35"
    by (rule toDouble_from_one [where k = 5 and m = 4925812092436480]) simp_all
  have gc: "toDouble (100 * (3602879701896397 / 72057594037927936)) = 5"
    by (rule toDouble_from_one [where k = 2 and m = 5629499534213120]) simp_all
  have tq: "toDouble (60 / 1000) = 1080863910568919 / 18014398509481984"
    by (rule toDouble_below_one [where k = 5 and m = 8646911284551352]) simp_all
  have tc: "toDouble ((1080863910568919 / 18014398509481984) * 32) = 1080863910568919 / 562949953421312"
    by (rule toDouble_from_one [where k = 0 and m = 8646911284551352]) simp_all
  have pq: "toDouble (35 / 1000) = 1261007895663739 / 36028797018963968"
    by (rule toDouble_below_one [where k = 5 and m = 5044031582654956]) simp_all
  have pc: "toDouble ((1261007895663739 / 36028797018963968) * 17) = 5359283556570891 / 9007199254740992"
    by (rule toDouble_below_one [where k = 1 and m = 5359283556570891]) simp_all
  have gq: "toDouble (5 / 1000) = 5764607523034235 / 1152921504606846976"
    by (rule toDouble_below_one [where k = 8 and m = 5764607523034235]) simp_all
  have gk: "toDouble ((5764607523034235 / 1152921504606846976) * 5) = 3602879701896397 / 144115188075855872"
    by (rule toDouble_below_one [where k = 6 and m = 7205759403792794]) simp_all
  have s1: "toDouble ((1080863910568919 / 562949953421312) + (5359283556570891 / 9007199254740992)) = 5663276531418399 / 2251799813685248"
    by (rule toDouble_from_one [where k = 1 and m = 5663276531418399]) simp_all
  have s2: "toDouble ((5663276531418399 / 2251799813685248) + (3602879701896397 / 144115188075855872)) = 2859785763380265 / 1125899906842624"
    by (rule toDouble_from_one [where k = 1 and m = 5719571526760530]) simp_all
  show ?thesis
    unfolding estimateCost_def Let_def
    by (simp only: assms of_nat_numeral double_literals ts pd gc tq tc pq pc gq gk s1 s2)
qed

text \<open>Ceilings that are no doubles are rounded when the input is read.\<close>

lemma ceiling_0_05: "toDouble (1 / 20) = 3602879701896397 / 72057594037927936"
  by (rule toDouble_below_one [where k = 5 and m = 7205759403792794]) simp_all

lemma ceiling_0_3302: "toDouble (0.3302) = 5948354387830951 / 18014398509481984"
  by (rule toDouble_below_one [where k = 2 and m = 5948354387830951]) simp_all

lemma ceiling_1_27: "toDouble (1.27) = 2859785763380265 / 2251799813685248"
  by (rule toDouble_from_one [where k = 0 and m = 5719571526760530]) simp_all

text \<open>The estimate is monotone in the call counter: every operation is.\<close>

lemma cost_share_mono:
  assumes "0 \<le> a" and "a \<le> b" and "0 \<le> c" and "0 \<le> p"
  shows "0 \<le> toDouble (toDouble (toDouble (a * c) / 1000) * p)
         \<and> toDouble (toDouble (toDouble (a * c) / 1000) * p)
             \<le> toDouble (toDouble (toDouble (b * c) / 1000) * p)"
proof -
  have 0: "0 \<le> a * c" using assms by simp
  have 1: "a * c \<le> b * c" using assms by (simp add: mult_right_mono)
  have 2: "0 \<le> toDouble (a * c)" using 0 by (rule toDouble_nonneg)
  have 3: "toDouble (a * c) \<le> toDouble (b * c)" using 0 1 by (rule toDouble_mono)
  have 4: "0 \<le> toDouble (a * c) / 1000" using 2 by simp
  have 5: "toDouble (a * c) / 1000 \<le> toDouble (b * c) / 1000"
    using 3 by (simp add: divide_right_mono)
  have 6: "0 \<le> toDouble (toDouble (a * c) / 1000)" using 4 by (rule toDouble_nonneg)
  have 7: "toDouble (toDouble (a * c) / 1000) \<le> toDouble (toDouble (b * c) / 1000)"
    using 4 5 by (rule toDouble_mono)
  have 8: "0 \<le> toDouble (toDouble (a * c) / 1000) * p" using 6 assms(4) by simp
  have 9: "toDouble (toDouble (a * c) / 1000) * p \<le> toDouble (toDouble (b * c) / 1000) * p"
    using 7 assms(4) by (rule mult_right_mono)
  have 10: "0 \<le> toDouble (toDouble (toDouble (a * c) / 1000) * p)"
    using 8 by (rule toDouble_nonneg)
  have 11: "toDouble (toDouble (toDouble (a * c) / 1000) * p)
             \<le> toDouble (toDouble (toDouble (b * c) / 1000) * p)"
    using 8 9 by (rule toDouble_mono)
  from 10 11 show ?thesis by simp
qed

lemma cost_sum_mono:
  assumes "0 \<le> x" and "x \<le> x'" and "0 \<le> y" and "y \<le> y'" and "0 \<le> z" and "z \<le> z'"
  shows "toDouble (toDouble (x + y) + z) \<le> toDouble (toDouble (x' + y') + z')"
proof -
  have 1: "0 \<le> x + y" using assms by simp
  have 2: "x + y \<le> x' + y'" using assms by simp
  have 3: "0 \<le> toDouble (x + y)" using 1 by (rule toDouble_nonneg)
  have 4: "toDouble (x + y) \<le> toDouble (x' + y')" using 1 2 by (rule toDouble_mono)
  have 5: "0 \<le> toDouble (x + y) + z" using 3 assms(5) by simp
  have 6: "toDouble (x + y) + z \<le> toDouble (x' + y') + z'" using 4 assms(6) by simp
  show ?thesis using 5 6 by (rule toDouble_mono)
qed

lemma estimateCost_mono:
  assumes "apiCalls a \<le> apiCalls b"
  shows "estimateCost a \<le> estimateCost b"
proof -
  have n: "(0::rat) \<le> of_nat (apiCalls a)" "(of_nat (apiCalls a) :: rat) \<le> of_nat (apiCalls b)"
    using assms by simp_all
  have c: "0 \<le> toDouble (6 / 10)" "0 \<le> toDouble (35 / 100)" "0 \<le> toDouble (5 / 100)"
    by (simp_all add: toDouble_nonneg)
  note t = cost_share_mono [OF n c(1), of 32]
  note p = cost_share_mono [OF n c(2), of 17]
  note g = cost_share_mono [OF n c(3), of 5]
  show ?thesis
    unfolding estimateCost_def Let_def
    using t p g by (intro cost_sum_mono) simp_all
qed

text \<open>
  The estimate and the closed form \<open>apiCalls \<times> (0.6\<times>32 + 0.35\<times>17 + 0.05\<times>5) / 1000\<close>: every
  one of the six roundings on the way to a share of the cost, and of the two of the sum,
  changes its value by a factor between \<open>1 - 2 ^ -53\<close> and \<open>1 + 2 ^ -53\<close>.
\<close>

lemma estimateCost_within:
  "of_nat (apiCalls rl) * (6 / 10 * 32 + 35 / 100 * 17 + 5 / 100 * 5) / 1000
       * (1 - 1 / 2 ^ 53) ^ 6 \<le> estimateCost rl
   \<and> estimateCost rl
       \<le> of_nat (apiCalls rl) * (6 / 10 * 32 + 35 / 100 * 17 + 5 / 100 * 5) / 1000
           * (1 + 1 / 2 ^ 53) ^ 6"
proof -
  define a :: rat where "a = of_nat (apiCalls rl)"
  define lo :: rat where "lo = 1 - 1 / 2 ^ 53"
  define hi :: rat where "hi = 1 + 1 / 2 ^ 53"
  have a: "0 \<le> a" by (simp add: a_def)
  have lo: "0 \<le> lo" "lo \<le> 1" by (simp_all add: lo_def)
  have hi: "0 \<le> hi" "1 \<le> hi" by (simp_all add: hi_def)
  have W: "l * lo \<le> toDouble x \<and> toDouble x \<le> h * hi"
    if "0 \<le> l" and "l \<le> x" and "x \<le> h" for l x h
    using toDouble_within [OF that] unfolding lo_def hi_def .
  have share: "a * c * p / 1000 * lo ^ 4 \<le> toDouble (toDouble (toDouble (a * toDouble c) / 1000) * p)
        \<and> toDouble (toDouble (toDouble (a * toDouble c) / 1000) * p) \<le> a * c * p / 1000 * hi ^ 4"
    if c: "0 \<le> c" and p: "0 \<le> p" for c p
  proof -
    have 1: "c * lo \<le> toDouble c \<and> toDouble c \<le> c * hi"
      using c by (intro W) simp_all
    have 2: "a * (c * lo) \<le> a * toDouble c \<and> a * toDouble c \<le> a * (c * hi)"
      using 1 a by (simp add: mult_left_mono)
    have n2: "0 \<le> a * (c * lo)" using a c lo by simp
    have 3: "a * (c * lo) * lo \<le> toDouble (a * toDouble c)
             \<and> toDouble (a * toDouble c) \<le> a * (c * hi) * hi"
      using n2 2 by (intro W) simp_all
    have 4: "a * (c * lo) * lo / 1000 \<le> toDouble (a * toDouble c) / 1000
             \<and> toDouble (a * toDouble c) / 1000 \<le> a * (c * hi) * hi / 1000"
      using 3 by (simp add: divide_right_mono)
    have n4: "0 \<le> a * (c * lo) * lo / 1000" using n2 lo by simp
    have 5: "a * (c * lo) * lo / 1000 * lo \<le> toDouble (toDouble (a * toDouble c) / 1000)
             \<and> toDouble (toDouble (a * toDouble c) / 1000) \<le> a * (c * hi) * hi / 1000 * hi"
      using n4 4 by (intro W) simp_all
    have 6: "a * (c * lo) * lo / 1000 * lo * p \<le> toDouble (toDouble (a * toDouble c) / 1000) * p
             \<and> toDouble (toDouble (a * toDouble c) / 1000) * p
                 \<le> a * (c * hi) * hi / 1000 * hi * p"
      by (intro conjI mult_right_mono conjunct1 [OF 5] conjunct2 [OF 5] p)
    have n6: "0 \<le> a * (c * lo) * lo / 1000 * lo * p" using n4 lo p by simp
    have 7: "a * (c * lo) * lo / 1000 * lo * p * lo
               \<le> toDouble (toDouble (toDouble (a * toDouble c) / 1000) * p)
             \<and> toDouble (toDouble (toDouble (a * toDouble c) / 1000) * p)
                 \<le> a * (c * hi) * hi / 1000 * hi * p * hi"
      using n6 6 by (intro W) simp_all
    have l: "a * (c * lo) * lo / 1000 * lo * p * lo = a * c * p / 1000 * lo ^ 4"
      by (simp add: power4_eq_xxxx)
    have h: "a * (c * hi) * hi / 1000 * hi * p * hi = a * c * p / 1000 * hi ^ 4"
      by (simp add: power4_eq_xxxx)
    from 7 show ?thesis by (simp only: l h)
  qed
  define X where "X = a * (6 / 10) * 32 / 1000"
  define Y where "Y = a * (35 / 100) * 17 / 1000"
  define Z where "Z = a * (5 / 100) * 5 / 1000"
  define x where "x = toDouble (toDouble (toDouble (a * toDouble (6 / 10)) / 1000) * 32)"
  define y where "y = toDouble (toDouble (toDouble (a * toDouble (35 / 100)) / 1000) * 17)"
  define z where "z = toDouble (toDouble (toDouble (a * toDouble (5 / 100)) / 1000) * 5)"
  have XYZ: "0 \<le> X" "0 \<le> Y" "0 \<le> Z" using a by (simp_all add: X_def Y_def Z_def)
  have x: "X * lo ^ 4 \<le> x \<and> x \<le> X * hi ^ 4"
    unfolding X_def x_def by (rule share) simp_all
  have y: "Y * lo ^ 4 \<le> y \<and> y \<le> Y * hi ^ 4"
    unfolding Y_def y_def by (rule share) simp_all
  have z: "Z * lo ^ 4 \<le> z \<and> z \<le> Z * hi ^ 4"
    unfolding Z_def z_def by (rule share) simp_all
  have s: "(X + Y) * lo ^ 4 \<le> x + y \<and> x + y \<le> (X + Y) * hi ^ 4"
    using x y by (simp add: distrib_right add_mono)
  have ns: "0 \<le> (X + Y) * lo ^ 4" using XYZ lo by simp
  have s1: "(X + Y) * lo ^ 4 * lo \<le> toDouble (x + y)
            \<and> toDouble (x + y) \<le> (X + Y) * hi ^ 4 * hi"
    using ns s by (intro W) simp_all
  have zl: "Z * lo ^ 4 * lo \<le> Z * lo ^ 4"
  proof -
    have "Z * lo ^ 4 * lo \<le> Z * lo ^ 4 * 1"
      using XYZ lo by (intro mult_left_mono) simp_all
    then show ?thesis by simp
  qed
  have zh: "Z * hi ^ 4 \<le> Z * hi ^ 4 * hi"
  proof -
    have "Z * hi ^ 4 * 1 \<le> Z * hi ^ 4 * hi"
      using XYZ hi by (intro mult_left_mono) simp_all
    then show ?thesis by simp
  qed
  have t: "(X + Y + Z) * (lo ^ 4 * lo) \<le> toDouble (x + y) + z
           \<and> toDouble (x + y) + z \<le> (X + Y + Z) * (hi ^ 4 * hi)"
  proof -
    have "(X + Y + Z) * (lo ^ 4 * lo) = (X + Y) * lo ^ 4 * lo + Z * lo ^ 4 * lo"
      by (simp add: algebra_simps)
    also have "\<dots> \<le> toDouble (x + y) + z" using s1 z zl by linarith
    finally have 1: "(X + Y + Z) * (lo ^ 4 * lo) \<le> toDouble (x + y) + z" .
    have "toDouble (x + y) + z \<le> (X + Y) * hi ^ 4 * hi + Z * hi ^ 4 * hi"
      using s1 z zh by linarith
    also have "\<dots> = (X + Y + Z) * (hi ^ 4 * hi)" by (simp add: algebra_simps)
    finally have 2: "toDouble (x + y) + z \<le> (X + Y + Z) * (hi ^ 4 * hi)" .
    from 1 2 show ?thesis by simp
  qed
  have nt: "0 \<le> (X + Y + Z) * (lo ^ 4 * lo)" using XYZ lo by simp
  have r: "(X + Y + Z) * (lo ^ 4 * lo) * lo \<le> toDouble (toDouble (x + y) + z)
           \<and> toDouble (toDouble (x + y) + z) \<le> (X + Y + Z) * (hi ^ 4 * hi) * hi"
    using nt t by (intro W) simp_all
  have l6: "(X + Y + Z) * (lo ^ 4 * lo) * lo = (X + Y + Z) * lo ^ 6"
    by (simp add: eval_nat_numeral)
  have h6: "(X + Y + Z) * (hi ^ 4 * hi) * hi = (X + Y + Z) * hi ^ 6"
    by (simp add: eval_nat_numeral)
  have e: "estimateCost rl = toDouble (toDouble (x + y) + z)"
    by (simp only: estimateCost_def Let_def x_def y_def z_def a_def)
  have c: "of_nat (apiCalls rl) * (6 / 10 * 32 + 35 / 100 * 17 + 5 / 100 * 5) / 1000
             = X + Y + Z"
    by (simp add: X_def Y_def Z_def a_def)
  from r have r': "(X + Y + Z) * lo ^ 6 \<le> toDouble (toDouble (x + y) + z)
           \<and> toDouble (toDouble (x + y) + z) \<le> (X + Y + Z) * hi ^ 6"
    by (simp only: l6 h6)
  show ?thesis using r' by (simp only: c e lo_def hi_def)
qed

lemma estimateCost_near_closed_form:
  "\<bar>estimateCost rl - of_nat (apiCalls rl) * (0.6 * 32 + 0.35 * 17 + 0.05 * 5) / 1000\<bar>
     \<le> of_nat (apiCalls rl) * (0.6 * 32 + 0.35 * 17 + 0.05 * 5) / 1000 / 2 ^ 50"
proof -
  define C :: rat where "C = of_nat (apiCalls rl) * (6 / 10 * 32 + 35 / 100 * 17 + 5 / 100 * 5) / 1000"
  have C: "0 \<le> C" by (simp add: C_def)
  have hi: "(1 + 1 / 2 ^ 53) ^ 6 \<le> 1 + 1 / (2::rat) ^ 50"
    by (simp add: power_divide)
  have lo': "1 - 1 / (2::rat) ^ 50 \<le> (1 - 1 / 2 ^ 53) ^ 6"
    by (simp add: power_divide)
  from estimateCost_within [of rl]
  have 1: "C * (1 - 1 / 2 ^ 53) ^ 6 \<le> estimateCost rl"
    and 2: "estimateCost rl \<le> C * (1 + 1 / 2 ^ 53) ^ 6"
    by (simp_all only: C_def)
  have "C * (1 - 1 / 2 ^ 50) \<le> C * (1 - 1 / 2 ^ 53) ^ 6"
    using C lo' by (rule mult_left_mono [rotated])
  with 1 have 3: "C - C / 2 ^ 50 \<le> estimateCost rl" by (simp add: algebra_simps)
  have "C * (1 + 1 / 2 ^ 53) ^ 6 \<le> C * (1 + 1 / 2 ^ 50)"
    using C hi by (rule mult_left_mono [rotated])
  with 2 have 4: "estimateCost rl \<le> C + C / 2 ^ 50" by (simp add: algebra_simps)
  have c: "of_nat (apiCalls rl) * (0.6 * 32 + 0.35 * 17 + 0.05 * 5) / 1000 = C"
    by (simp add: C_def)
  from 3 4 have "\<bar>estimateCost rl - C\<bar> \<le> C / 2 ^ 50" by linarith
  then show ?thesis by (simp only: c)
qed

section \<open>Cost Guard: the budget check\<close>

lemma checkLimits_fails_iff:
  "isl (checkLimits now now' rl) \<longleftrightarrow> maxDailyCost rl \<le> estimateCost rl"
  by (simp add: checkLimits_def Let_def)

lemma checkLimits_throws:
  assumes "maxDailyCost rl \<le> estimateCost rl"
  shows "checkLimits now now' rl = Inl CostLimitReached"
  using assms by (simp add: checkLimits_def Let_def)

lemma checkLimits_passes:
  assumes "estimateCost rl < maxDailyCost rl"
  shows "checkLimits now now' rl = Inr (rl\<lparr>lastCallTime := now', apiCalls := apiCalls rl + 1\<rparr>)"
  using assms by (simp add: checkLimits_def Let_def)

lemma checkLimitsCalls_all_fail:
  assumes "maxDailyCost rl \<le> estimateCost rl"
  shows "list_all isl (checkLimitsCalls ts rl)"
  using assms
proof (induction ts)
  case Nil
  show ?case by simp
next
  case (Cons t ts)
  obtain now now' where t: "t = (now, now')" by (cases t)
  from Cons.prems have "checkLimits now now' rl = Inl CostLimitReached"
    by (rule checkLimits_throws)
  with Cons t show ?case by simp
qed

lemma checkLimitsCalls_length: "length (checkLimitsCalls ts rl) = length ts"
  by (induction ts arbitrary: rl) (auto split: sum.splits)

lemma checkLimitsCalls_fail_forever:
  assumes "i < length ts" and "isl (checkLimitsCalls ts rl ! i)" and "i \<le> j" and "j < length ts"
  shows "isl (checkLimitsCalls ts rl ! j)"
  using assms
proof (induction ts arbitrary: rl i j)
  case Nil
  then show ?case by simp
next
  case (Cons t ts)
  obtain now now' where t: "t = (now, now')" by (cases t)
  show ?case
  proof (cases "checkLimits now now' rl")
    case (Inl e)
    then have "maxDailyCost rl \<le> estimateCost rl"
      using checkLimits_fails_iff [of now now' rl] by simp
    then have "list_all isl (checkLimitsCalls (t # ts) rl)"
      by (rule checkLimitsCalls_all_fail)
    with Cons.prems(4) show ?thesis
      by (simp only: list_all_length checkLimitsCalls_length)
  next
    case (Inr rl')
    with Cons.prems t obtain i' where i: "i = Suc i'"
      by (cases i) auto
    with Cons.prems obtain j' where j: "j = Suc j'"
      by (cases j) auto
    from Cons.prems Inr t i j have "isl (checkLimitsCalls ts rl' ! j')"
      by (intro Cons.IH [of i' rl' j']) auto
    with Inr t j show ?thesis by simp
  qed
qed

text \<open>The calls of the example runs: ceilings of 20 and of 0.05 dollars.\<close>

lemma checkLimits_under_20:
  assumes "maxDailyCost rl = 20" and "apiCalls rl \<le> 100"
  shows "checkLimits now now' rl = Inr (rl\<lparr>lastCallTime := now', apiCalls := apiCalls rl + 1\<rparr>)"
proof (rule checkLimits_passes)
  obtain top where top: "top = rl\<lparr>apiCalls := 100\<rparr>" by simp
  have "estimateCost rl \<le> estimateCost top"
    using assms(2) top by (intro estimateCost_mono) simp
  also have "estimateCost top = 2859785763380265 / 1125899906842624"
    using top by (intro estimateCost_at_100) simp
  also have "\<dots> < 20" by simp
  finally show "estimateCost rl < maxDailyCost rl" by (simp only: assms(1))
qed

lemma checkLimits_under_0_05:
  assumes "maxDailyCost rl = 3602879701896397 / 72057594037927936" and "apiCalls rl \<le> 1"
  shows "checkLimits now now' rl = Inr (rl\<lparr>lastCallTime := now', apiCalls := apiCalls rl + 1\<rparr>)"
proof (rule checkLimits_passes)
  from assms(2) consider "apiCalls rl = 0" | "apiCalls rl = 1" by linarith
  then show "estimateCost rl < maxDailyCost rl"
  proof cases
    case 1
    then show ?thesis by (simp add: estimateCost_at_0 assms(1))
  next
    case 2
    then show ?thesis by (simp add: estimateCost_at_1 assms(1))
  qed
qed

lemma checkLimits_at_0_05:
  assumes "maxDailyCost rl = 3602879701896397 / 72057594037927936" and "apiCalls rl = 2"
  shows "maxDailyCost rl \<le> estimateCost rl"
  using assms by (simp add: estimateCost_at_2)

text \<open>
  Claim C1, as stated, fails: the estimate is computed in double arithmetic, share by
  share, and is not always equal to the closed form. With a counter of 13 and the ceiling
  0.3302 (the double nearest to it) the closed form \<open>13 \<times> 0.0254 = 0.3302\<close> has reached
  the ceiling, but the estimate of the code is the double below it and the call passes.
  With a counter of 50 and the ceiling 1.27 the closed form \<open>50 \<times> 0.0254 = 1.27\<close> is below
  the double nearest to 1.27, but the estimate of the code is that double and the call
  throws.
\<close>

theorem closed_form_counterexample:
  "maxDailyCost ((newAPIRateLimiter (toDouble 0.3302) 0)\<lparr>apiCalls := 13\<rparr>)
     \<le> 13 * (0.6 * 32 + 0.35 * 17 + 0.05 * 5) / 1000
   \<and> checkLimits 0 100 ((newAPIRateLimiter (toDouble 0.3302) 0)\<lparr>apiCalls := 13\<rparr>)
       = Inr ((newAPIRateLimiter (toDouble 0.3302) 0)\<lparr>lastCallTime := 100, apiCalls := 14\<rparr>)
   \<and> 50 * (0.6 * 32 + 0.35 * 17 + 0.05 * 5) / 1000
       < maxDailyCost ((newAPIRateLimiter (toDouble 1.27) 0)\<lparr>apiCalls := 50\<rparr>)
   \<and> checkLimits 0 100 ((newAPIRateLimiter (toDouble 1.27) 0)\<lparr>apiCalls := 50\<rparr>)
       = Inl CostLimitReached"
proof -
  have a: "maxDailyCost ((newAPIRateLimiter (toDouble 0.3302) 0)\<lparr>apiCalls := 13\<rparr>)
     \<le> 13 * (0.6 * 32 + 0.35 * 17 + 0.05 * 5) / 1000"
    unfolding ceiling_0_3302 by (simp add: newAPIRateLimiter_def)
  have b: "checkLimits 0 100 ((newAPIRateLimiter (toDouble 0.3302) 0)\<lparr>apiCalls := 13\<rparr>)
       = Inr ((newAPIRateLimiter (toDouble 0.3302) 0)\<lparr>lastCallTime := 100, apiCalls := 14\<rparr>)"
    unfolding ceiling_0_3302
    by (simp add: checkLimits_def newAPIRateLimiter_def estimateCost_at_13)
  have c: "50 * (0.6 * 32 + 0.35 * 17 + 0.05 * 5) / 1000
       < maxDailyCost ((newAPIRateLimiter (toDouble 1.27) 0)\<lparr>apiCalls := 50\<rparr>)"
    unfolding ceiling_1_27 by (simp add: newAPIRateLimiter_def)
  have d: "checkLimits 0 100 ((newAPIRateLimiter (toDouble 1.27) 0)\<lparr>apiCalls := 50\<rparr>)
       = Inl CostLimitReached"
    unfolding ceiling_1_27
    by (simp add: checkLimits_def newAPIRateLimiter_def estimateCost_at_50)
  from a b c d show ?thesis by (intro conjI)
qed

text \<open>
  Claim C1, amended. A call of \<^verbatim>\<open>checkLimits\<close> throws exactly when the estimated cost has
  reached \<^verbatim>\<open>maxDailyCost\<close>, where the estimated cost is the sum of the three shares as the
  code computes it in double arithmetic: it differs from the closed form
  \<open>apiCalls \<times> (0.6\<times>32 + 0.35\<times>17 + 0.05\<times>5) / 1000\<close> by at most the fraction \<open>2 ^ -50\<close> of it.
  A call that does not throw sets the time of the last call, adds one to the counter and
  leaves the ceiling as it is; a call that throws leaves the limiter as it was. The
  estimate is monotone in the counter, and in any sequence of calls on one limiter, once a
  call has failed every later call fails.
\<close>

theorem checkLimits_budget:
  "(isl (checkLimits now now' rl) \<longleftrightarrow> estimateCost rl \<ge> maxDailyCost rl)
   \<and> \<bar>estimateCost rl - of_nat (apiCalls rl) * (0.6 * 32 + 0.35 * 17 + 0.05 * 5) / 1000\<bar>
       \<le> of_nat (apiCalls rl) * (0.6 * 32 + 0.35 * 17 + 0.05 * 5) / 1000 / 2 ^ 50
   \<and> (estimateCost rl < maxDailyCost rl
        \<longrightarrow> checkLimits now now' rl
              = Inr (rl\<lparr>lastCallTime := now', apiCalls := apiCalls rl + 1\<rparr>))
   \<and> (\<forall>rl'. checkLimits now now' rl = Inr rl'
        \<longrightarrow> apiCalls rl' = apiCalls rl + 1 \<and> maxDailyCost rl' = maxDailyCost rl)
   \<and> (\<forall>rl2. apiCalls rl \<le> apiCalls rl2 \<longrightarrow> estimateCost rl \<le> estimateCost rl2)
   \<and> (\<forall>ts i j. i < length ts \<and> isl (checkLimitsCalls ts rl ! i) \<and> i \<le> j \<and> j < length ts
        \<longrightarrow> isl (checkLimitsCalls ts rl ! j))"
proof -
  have p1: "isl (checkLimits now now' rl) \<longleftrightarrow> estimateCost rl \<ge> maxDailyCost rl"
    by (rule checkLimits_fails_iff)
  have p2: "\<bar>estimateCost rl - of_nat (apiCalls rl) * (0.6 * 32 + 0.35 * 17 + 0.05 * 5) / 1000\<bar>
       \<le> of_nat (apiCalls rl) * (0.6 * 32 + 0.35 * 17 + 0.05 * 5) / 1000 / 2 ^ 50"
    by (rule estimateCost_near_closed_form)
  have p3: "estimateCost rl < maxDailyCost rl
        \<longrightarrow> checkLimits now now' rl
              = Inr (rl\<lparr>lastCallTime := now', apiCalls := apiCalls rl + 1\<rparr>)"
    using checkLimits_passes by blast
  have p4: "\<forall>rl'. checkLimits now now' rl = Inr rl'
        \<longrightarrow> apiCalls rl' = apiCalls rl + 1 \<and> maxDailyCost rl' = maxDailyCost rl"
    by (auto simp: checkLimits_def Let_def split: if_splits)
  have p5: "\<forall>rl2. apiCalls rl \<le> apiCalls rl2 \<longrightarrow> estimateCost rl \<le> estimateCost rl2"
    using estimateCost_mono by blast
  have p6: "\<forall>ts i j. i < length ts \<and> isl (checkLimitsCalls ts rl ! i) \<and> i \<le> j \<and> j < length ts
        \<longrightarrow> isl (checkLimitsCalls ts rl ! j)"
    using checkLimitsCalls_fail_forever by blast
  from p1 p2 p3 p4 p5 p6 show ?thesis by (intro conjI)
qed

text \<open>
  With a ceiling of 0.05 dollars the calls at counters 0 and 1 pass (the estimates are 0
  and the double next to 0.0254) and every call from counter 2 on throws.
\<close>

theorem checkLimits_budget_witness:
  "map isl (checkLimitsCalls [(0, 100), (150, 200), (250, 300), (350, 400)]
              (newAPIRateLimiter (toDouble (5 / 100)) 0))
     = [False, False, True, True]
   \<and> checkLimits 0 100 (newAPIRateLimiter (toDouble (5 / 100)) 0)
       = Inr ((newAPIRateLimiter (toDouble (5 / 100)) 0)\<lparr>lastCallTime := 100, apiCalls := 1\<rparr>)
   \<and> estimateCost ((newAPIRateLimiter (toDouble (5 / 100)) 0)\<lparr>apiCalls := 1\<rparr>)
       \<le> estimateCost ((newAPIRateLimiter (toDouble (5 / 100)) 0)\<lparr>apiCalls := 2\<rparr>)"
proof -
  have e: "map isl (checkLimitsCalls [(0, 100), (150, 200), (250, 300), (350, 400)]
              (newAPIRateLimiter (toDouble (5 / 100)) 0)) = [False, False, True, True]"
    unfolding five_hundredths
    by (simp add: newAPIRateLimiter_def checkLimits_under_0_05
          checkLimits_throws [OF checkLimits_at_0_05])
  have "estimateCost (newAPIRateLimiter (toDouble (5 / 100)) 0)
          < maxDailyCost (newAPIRateLimiter (toDouble (5 / 100)) 0)"
    unfolding five_hundredths by (simp add: newAPIRateLimiter_def estimateCost_at_0)
  then have c: "checkLimits 0 100 (newAPIRateLimiter (toDouble (5 / 100)) 0)
       = Inr ((newAPIRateLimiter (toDouble (5 / 100)) 0)\<lparr>lastCallTime := 100, apiCalls := 1\<rparr>)"
    using checkLimits_budget [of 0 100 "newAPIRateLimiter (toDouble (5 / 100)) 0"]
    by (simp add: newAPIRateLimiter_def)
  have m: "estimateCost ((newAPIRateLimiter (toDouble (5 / 100)) 0)\<lparr>apiCalls := 1\<rparr>)
       \<le> estimateCost ((newAPIRateLimiter (toDouble (5 / 100)) 0)\<lparr>apiCalls := 2\<rparr>)"
    using checkLimits_budget [of 0 100 "(newAPIRateLimiter (toDouble (5 / 100)) 0)\<lparr>apiCalls := 1\<rparr>"]
    by (simp add: newAPIRateLimiter_def)
  from e c m show ?thesis by (intro conjI)
qed

section \<open>Geo Partitioner: the number and the place of the cells\<close>










section \<open>Contact filter: ranking and truncation\<close>

text \<open>
  The entries of \<^const>\<open>DISPOSABLE_DOMAINS\<close> are in lower case, so the domain is the only
  string that \<^const>\<open>isDisposableDomain\<close> has to convert.
\<close>

lemma lower_disposables: "map toLowerCase DISPOSABLE_DOMAINS = DISPOSABLE_DOMAINS"
  by code_simp

lemma isDisposableDomain_code [code]:
  "isDisposableDomain domain = disposableIn (toLowerCase domain)"
proof -
  have "list_ex (\<lambda>d. includesStr (toLowerCase domain) (toLowerCase d)) DISPOSABLE_DOMAINS
        = list_ex (includesStr (toLowerCase domain)) (map toLowerCase DISPOSABLE_DOMAINS)"
    by (simp add: list_ex_iff)
  then show ?thesis
    by (simp add: isDisposableDomain_def disposableIn_def lower_disposables)
qed

lemma isBusinessEmailPattern_defined:
  assumes "domainPart email = Some domain"
  shows "isBusinessEmailPattern email \<noteq> None"
  using assms by (simp add: isBusinessEmailPattern_def Let_def)

lemma validEmails_scored:
  assumes "item \<in> set (validEmails mx wd inputList)"
  shows "scoreContact mx wd (fst item) = Some (snd item) \<and> fst item \<in> set inputList"
  using assms by (auto simp: validEmails_def List.map_filter_def)


lemma set_rankedContacts:
  "set (rankedContacts mx wd inputList) = set (validEmails mx wd inputList)"
  by (simp add: rankedContacts_def)


lemma rankedContacts_descending:
  "sorted_wrt (\<lambda>a b. snd b \<le> snd a) (rankedContacts mx wd inputList)"
proof -
  have "sorted (map (\<lambda>item. - snd item) (rankedContacts mx wd inputList))"
    unfolding rankedContacts_def by (rule sorted_sort_key)
  then show ?thesis by (simp add: sorted_map)
qed

lemma filterBusinessEmails_take:
  "filterBusinessEmails mx wd inputList = map fst (take 6 (rankedContacts mx wd inputList))"
  by (simp add: filterBusinessEmails_def slice_def take_map)

lemma top6_scores:
  "map (scoreContact mx wd) (filterBusinessEmails mx wd inputList)
     = map Some (map snd (take 6 (rankedContacts mx wd inputList)))"
proof -
  have "scoreContact mx wd (fst item) = Some (snd item)"
    if "item \<in> set (take 6 (rankedContacts mx wd inputList))" for item
  proof -
    from that have "item \<in> set (validEmails mx wd inputList)"
      using set_rankedContacts by (metis in_set_takeD)
    then show ?thesis using validEmails_scored by blast
  qed
  then show ?thesis by (simp add: filterBusinessEmails_take)
qed

lemma top6_descending:
  "sorted_wrt (\<lambda>a b. b \<le> a) (map snd (take 6 (rankedContacts mx wd inputList)))"
proof -
  have "sorted_wrt (\<lambda>a b. snd b \<le> snd a) (take 6 (rankedContacts mx wd inputList))"
    using rankedContacts_descending by (rule sorted_wrt_take)
  then show ?thesis by (simp add: sorted_wrt_map)
qed

lemma filterBusinessEmails_subset:
  "set (filterBusinessEmails mx wd inputList) \<subseteq> set inputList"
proof
  fix e
  assume "e \<in> set (filterBusinessEmails mx wd inputList)"
  then obtain item where i: "item \<in> set (take 6 (rankedContacts mx wd inputList))"
    and e: "e = fst item"
    by (auto simp: filterBusinessEmails_take)
  from i have "item \<in> set (validEmails mx wd inputList)"
    using set_rankedContacts by (metis in_set_takeD)
  with e show "e \<in> set inputList" using validEmails_scored by blast
qed

text \<open>The three addresses of the example, rule by rule.\<close>

lemma john_parts:
  "\<not> isSocialContact ''john@google.com''"
  "localPart ''john@google.com'' = ''john''"
  "domainPart ''john@google.com'' = Some ''google.com''"
  "isValidEmailFormat ''john@google.com''"
  "\<not> skippedBeforeDNS ''john@google.com'' ''john'' ''google.com''"
  "isBusinessEmailPattern ''john@google.com'' = Some True"
  "''john'' \<notin> set excludedPrefixes"
  "\<not> isAggregatorDomain ''google.com''"
  by code_simp+

lemma jane_parts:
  "\<not> isSocialContact ''jane@yahoo.com''"
  "localPart ''jane@yahoo.com'' = ''jane''"
  "domainPart ''jane@yahoo.com'' = Some ''yahoo.com''"
  "isValidEmailFormat ''jane@yahoo.com''"
  "\<not> skippedBeforeDNS ''jane@yahoo.com'' ''jane'' ''yahoo.com''"
  "isBusinessEmailPattern ''jane@yahoo.com'' = Some False"
  "''yahoo.com'' \<in> set PERSONAL_PROVIDERS"
  "looksLikePersonNameLocalPart ''jane''"
  "''jane'' \<notin> set excludedPrefixes"
  "\<not> isAggregatorDomain ''yahoo.com''"
  by code_simp+

lemma test_parts:
  "\<not> isSocialContact ''test@10minutemail.com''"
  "localPart ''test@10minutemail.com'' = ''test''"
  "domainPart ''test@10minutemail.com'' = Some ''10minutemail.com''"
  "skippedBeforeDNS ''test@10minutemail.com'' ''test'' ''10minutemail.com''"
  "isDisposableDomain ''10minutemail.com''"
  by code_simp+

lemma score_john:
  "scoreContact mx None ''john@google.com'' = (if mx ''google.com'' then Some 100 else None)"
  by (simp add: scoreContact_def tierScore_def Let_def john_parts)

lemma score_jane:
  "scoreContact mx None ''jane@yahoo.com'' = (if mx ''yahoo.com'' then Some 50 else None)"
  by (simp add: scoreContact_def tierScore_def Let_def jane_parts)

lemma score_test:
  "scoreContact mx None ''test@10minutemail.com'' = None"
  by (simp add: scoreContact_def Let_def test_parts)

lemma example_filtered:
  assumes "mx ''google.com''" and "mx ''yahoo.com''"
  shows "filterBusinessEmails mx None
           [''john@google.com'', ''jane@yahoo.com'', ''test@10minutemail.com'']
         = [''john@google.com'', ''jane@yahoo.com'']"
  using assms
  by (simp add: filterBusinessEmails_def rankedContacts_def validEmails_def slice_def
                score_john score_jane score_test)

text \<open>
  Claim C8. For every contact list, whatever the MX lookups answer,
  \<^verbatim>\<open>filterBusinessEmails\<close> returns at most 6 entries, all of them entries of the input,
  every one with a score, and the scores in the order of the result are descending. When
  the MX lookups of \<open>google.com\<close> and \<open>yahoo.com\<close> succeed, the input
  \<open>[john@google.com, jane@yahoo.com, test@10minutemail.com]\<close> gives
  \<open>[john@google.com, jane@yahoo.com]\<close>: the disposable address is left out and the
  business address comes before the one of the personal provider.
\<close>

theorem filterBusinessEmails_top6:
  "length (filterBusinessEmails mx wd inputList) \<le> 6
   \<and> set (filterBusinessEmails mx wd inputList) \<subseteq> set inputList
   \<and> (\<exists>scores. map (scoreContact mx wd) (filterBusinessEmails mx wd inputList)
                   = map Some scores
               \<and> sorted_wrt (\<lambda>a b. a \<ge> b) scores)
   \<and> (mx ''google.com'' \<and> mx ''yahoo.com'' \<longrightarrow>
        filterBusinessEmails mx None
          [''john@google.com'', ''jane@yahoo.com'', ''test@10minutemail.com'']
        = [''john@google.com'', ''jane@yahoo.com''])"
proof -
  have p1: "length (filterBusinessEmails mx wd inputList) \<le> 6"
    by (simp add: filterBusinessEmails_take)
  have p2: "set (filterBusinessEmails mx wd inputList) \<subseteq> set inputList"
    by (rule filterBusinessEmails_subset)
  have p3: "\<exists>scores. map (scoreContact mx wd) (filterBusinessEmails mx wd inputList)
                   = map Some scores
               \<and> sorted_wrt (\<lambda>a b. a \<ge> b) scores"
    using top6_scores [of mx wd inputList] top6_descending [of mx wd inputList] by blast
  have p4: "mx ''google.com'' \<and> mx ''yahoo.com'' \<longrightarrow>
        filterBusinessEmails mx None
          [''john@google.com'', ''jane@yahoo.com'', ''test@10minutemail.com'']
        = [''john@google.com'', ''jane@yahoo.com'']"
    using example_filtered by blast
  from p1 p2 p3 p4 show ?thesis by (intro conjI)
qed

theorem filterBusinessEmails_top6_witness:
  "filterBusinessEmails (\<lambda>d. True) None
     [''john@google.com'', ''jane@yahoo.com'', ''test@10minutemail.com'']
   = [''john@google.com'', ''jane@yahoo.com'']
   \<and> map (scoreContact (\<lambda>d. True) None) [''john@google.com'', ''jane@yahoo.com'']
       = [Some 100, Some 50]"
proof -
  have "filterBusinessEmails (\<lambda>d. True) None
     [''john@google.com'', ''jane@yahoo.com'', ''test@10minutemail.com'']
   = [''john@google.com'', ''jane@yahoo.com'']"
    using filterBusinessEmails_top6 [of "\<lambda>d. True" None "[]"] by simp
  then show ?thesis by (simp add: score_john score_jane)
qed

section \<open>Contact filter: the aggregator penalty\<close>








section \<open>Raw contact extraction: the cap\<close>

lemma toLowerChar_fixed:
  assumes "\<not> isUpper c"
  shows "toLowerChar c = c"
proof -
  have "map_of (zip ''ABCDEFGHIJKLMNOPQRSTUVWXYZ'' ''abcdefghijklmnopqrstuvwxyz'') c = None"
    using assms by (intro map_of_zip_is_None [THEN iffD2]) (simp_all add: isUpper_def)
  then show ?thesis by (simp add: toLowerChar_def)
qed

lemma lower_not_upper:
  assumes "l \<in> set ''abcdefghijklmnopqrstuvwxyz''"
  shows "\<not> isUpper l"
proof -
  have "list_all (\<lambda>x. \<not> isUpper x) ''abcdefghijklmnopqrstuvwxyz''"
    by code_simp
  with assms show ?thesis by (simp only: list_all_iff) blast
qed

lemma toLowerChar_not_upper: "\<not> isUpper (toLowerChar c)"
proof (cases "isUpper c")
  case False
  then show ?thesis by (simp add: toLowerChar_fixed)
next
  case True
  have len: "length ''ABCDEFGHIJKLMNOPQRSTUVWXYZ'' = length ''abcdefghijklmnopqrstuvwxyz''"
    by simp
  from True have "c \<in> set ''ABCDEFGHIJKLMNOPQRSTUVWXYZ''"
    by (simp only: isUpper_def)
  then obtain l where
    l: "map_of (zip ''ABCDEFGHIJKLMNOPQRSTUVWXYZ'' ''abcdefghijklmnopqrstuvwxyz'') c = Some l"
    using map_of_zip_is_Some [OF len, of c] by blast
  then have "(c, l) \<in> set (zip ''ABCDEFGHIJKLMNOPQRSTUVWXYZ'' ''abcdefghijklmnopqrstuvwxyz'')"
    by (rule map_of_SomeD)
  then have "l \<in> set ''abcdefghijklmnopqrstuvwxyz''"
    by (rule set_zip_rightD)
  then have "\<not> isUpper l" by (rule lower_not_upper)
  moreover have "toLowerChar c = l"
    unfolding toLowerChar_def by (simp only: l option.case)
  ultimately show ?thesis by simp
qed

lemma toLowerCase_idem: "toLowerCase (toLowerCase s) = toLowerCase s"
proof -
  have "toLowerChar (toLowerChar c) = toLowerChar c" for c
    using toLowerChar_not_upper [of c] by (rule toLowerChar_fixed)
  then show ?thesis by (simp add: toLowerCase_def)
qed

lemma lowerSet_add:
  assumes "lowerSet emails"
  shows "lowerSet (setAdd emails (toLowerCase e))"
  using assms by (simp add: lowerSet_def setAdd_def toLowerCase_idem)

lemma lowerSet_foldl:
  assumes "\<And>emails x. lowerSet emails \<Longrightarrow> lowerSet (f emails x)" and "lowerSet emails"
  shows "lowerSet (foldl f emails xs)"
  using assms(2) by (induction xs arbitrary: emails) (simp_all add: assms(1))

lemma lowerSet_addMailto:
  assumes "lowerSet emails"
  shows "lowerSet (addMailto emails href)"
  using assms by (simp add: addMailto_def Let_def lowerSet_add)

lemma lowerSet_addMatch:
  assumes "lowerSet emails"
  shows "lowerSet (addMatch emails m)"
proof -
  let ?raw = "filter (\<lambda>c. \<not> isSpace c)
       (replaceBracket ''dot'' ''.'' (replaceBracket ''at'' ''@'' m))"
  have c: "cleanEmail m = toLowerCase ?raw"
    by (simp only: cleanEmail_def)
  have "lowerSet (setAdd emails (cleanEmail m))"
    unfolding c using assms by (rule lowerSet_add)
  with assms show ?thesis
    by (simp only: addMatch_def Let_def split: if_split) simp
qed

lemma lowerSet_addFields:
  assumes "lowerSet emails"
  shows "lowerSet (addFields emails fs)"
  using assms
  by (induction emails fs rule: addFields.induct) (simp_all add: lowerSet_add)

lemma lowerSet_addLdJson:
  assumes "lowerSet emails"
  shows "lowerSet (addLdJson emails script)"
  using assms by (simp add: addLdJson_def lowerSet_addFields split: option.splits prod.splits)

lemma lowerSet_addDataAttr:
  assumes "lowerSet emails"
  shows "lowerSet (addDataAttr emails a)"
  using assms by (simp add: addDataAttr_def lowerSet_add)

lemma lowerSet_addDecoded:
  assumes "lowerSet emails"
  shows "lowerSet (addDecoded emails tok)"
  using assms
  by (simp add: addDecoded_def lowerSet_add split: option.splits prod.splits)

lemma lowerSet_harvested: "lowerSet (harvestedEmails v)"
proof -
  have e: "lowerSet []" by (simp add: lowerSet_def)
  have 1: "lowerSet (foldl addMailto [] (mailtoHrefs v))"
    using lowerSet_addMailto e by (rule lowerSet_foldl)
  have 2: "lowerSet (foldl addMatch (foldl addMailto [] (mailtoHrefs v))
                       (concat (patternMatches v)))"
    using lowerSet_addMatch 1 by (rule lowerSet_foldl)
  have 3: "lowerSet (foldl addLdJson (foldl addMatch (foldl addMailto [] (mailtoHrefs v))
                       (concat (patternMatches v))) (ldJson v))"
    using lowerSet_addLdJson 2 by (rule lowerSet_foldl)
  have 4: "lowerSet (foldl addDataAttr (foldl addLdJson (foldl addMatch
                       (foldl addMailto [] (mailtoHrefs v))
                       (concat (patternMatches v))) (ldJson v)) (dataAttrs v))"
    using lowerSet_addDataAttr 3 by (rule lowerSet_foldl)
  have 5: "lowerSet (foldl addDecoded (foldl addDataAttr (foldl addLdJson (foldl addMatch
                       (foldl addMailto [] (mailtoHrefs v))
                       (concat (patternMatches v))) (ldJson v)) (dataAttrs v))
                       (base64Decoded v))"
    using lowerSet_addDecoded 4 by (rule lowerSet_foldl)
  then show ?thesis by (simp only: harvestedEmails_def Let_def)
qed

lemma lowerSet_take:
  assumes "lowerSet emails"
  shows "lowerSet (take n emails)"
proof -
  have "list_all (\<lambda>e. toLowerCase e = e) (take n emails)"
    using assms by (auto simp: lowerSet_def list_all_iff dest: in_set_takeD)
  with assms show ?thesis by (simp add: lowerSet_def)
qed

lemma distinct_setAdd:
  assumes "distinct s"
  shows "distinct (setAdd s x)"
  using assms by (simp add: setAdd_def)

lemma set_setAdd: "set (setAdd s x) = insert x (set s)"
  by (auto simp: setAdd_def)

lemma set_setAddAll: "set (setAddAll s xs) = set s \<union> set xs"
  unfolding setAddAll_def
  by (induction xs arbitrary: s) (simp_all add: set_setAdd)

lemma distinct_setAddAll:
  assumes "distinct s"
  shows "distinct (setAddAll s xs)"
  unfolding setAddAll_def using assms
  by (induction xs arbitrary: s) (simp_all add: distinct_setAdd)

text \<open>
  Claim C10, as stated, fails in its last part: \<^verbatim>\<open>enrichPlaceDetails\<close> appends to the
  (capped) result of \<^verbatim>\<open>extractEmails\<close> the addresses it finds itself in the text and the
  markup of the homepage, so for a homepage with nine addresses \<^verbatim>\<open>extractEmails\<close>
  returns eight of them and nine candidates are passed to \<^verbatim>\<open>filterBusinessEmails\<close>.
\<close>

theorem nine_candidates_counterexample:
  "length (extractEmails (html ninePage)) = 8
   \<and> allRawOf silentWeb ninePage = nineAddresses
   \<and> length (allRawOf silentWeb ninePage) = 9"
  by code_simp

text \<open>
  Claim C10, amended. For every HTML input \<^verbatim>\<open>extractEmails\<close> returns at most 8 entries,
  pairwise distinct, each in lower case, and the cap is applied inside
  \<^verbatim>\<open>extractEmails\<close>, before any scoring. The candidates that reach the quality filter
  are the capped list together with what \<^verbatim>\<open>enrichPlaceDetails\<close> finds itself: they
  contain the capped list, are pairwise distinct, and the filter returns at most 6 of
  them.
\<close>

theorem extractEmails_cap:
  "length (extractEmails v) \<le> 8
   \<and> distinct (extractEmails v)
   \<and> list_all (\<lambda>e. toLowerCase e = e) (extractEmails v)
   \<and> extractEmails v = take 8 (harvestedEmails v)
   \<and> set (extractEmails (html hp)) \<subseteq> set (allRawOf w hp)
   \<and> distinct (allRawOf w hp)
   \<and> length (filterBusinessEmails (mxRecord w) wd (allRawOf w hp)) \<le> 6"
proof -
  have t: "extractEmails v = take 8 (harvestedEmails v)"
    by (simp add: extractEmails_def slice_def)
  have l: "lowerSet (extractEmails v)"
    unfolding t using lowerSet_harvested by (rule lowerSet_take)
  have p1: "length (extractEmails v) \<le> 8" by (simp add: t)
  have p2: "distinct (extractEmails v)" using l by (simp add: lowerSet_def)
  have p3: "list_all (\<lambda>e. toLowerCase e = e) (extractEmails v)"
    using l by (simp add: lowerSet_def)
  have p5: "set (extractEmails (html hp)) \<subseteq> set (allRawOf w hp)"
    by (simp add: allRawOf_def set_setAddAll rawEmailsOf_def le_supI1)
  have p6: "distinct (allRawOf w hp)"
    unfolding allRawOf_def by (rule distinct_setAddAll) simp
  have p7: "length (filterBusinessEmails (mxRecord w) wd (allRawOf w hp)) \<le> 6"
    by (simp add: filterBusinessEmails_take)
  from p1 p2 p3 t p5 p6 p7 show ?thesis by (intro conjI)
qed

section \<open>The run: budget, checkpoint and resume\<close>

lemmas run_defs =
  runMain_def initialState_def targetCentersOf_def selectedCitiesOf_def
  calculateDailyCohort_def getCitiesForCohort_def slice_def startIndex_def endIndex_def
  citiesPerCohort_def ceilDiv_def enumerate_def geocodeLocation_def
  newAPIRateLimiter_def guardedCall_def
  geoboxCentersOf_def cellCeiling_def boxRadiusOf_def finishCity_def
  saveCheckpoint_def saveLeadsIncremental_def processPlace_def newPlace_def
  hasRecentPlace_def markPlaceSeen_def SAVE_INTERVAL_def enrichPlaceDetails_def
  emptied_def withContacts_def initialCheckpoint_def Let_def
  generateHexagonalGeoboxCenters_def numRings_def ringPoints_def
  searchedTerms_def List.map_filter_simps

lemmas example_defs =
  barWeb_def silentWeb_def barPlace_def tightInput_def wideInput_def spentLimiter_def

lemma checkLimits_over_0_05:
  assumes "maxDailyCost rl = 3602879701896397 / 72057594037927936" and "apiCalls rl = 2"
  shows "checkLimits now now' rl = Inl CostLimitReached"
  using assms by (intro checkLimits_throws checkLimits_at_0_05)

lemmas budget_checks =
  ceiling_0_05 checkLimits_under_20 checkLimits_under_0_05 checkLimits_over_0_05

lemma cities_are_no_coordinates:
  "parseLatLng ''Austin, TX'' = None"
  "parseLatLng ''Boise, ID'' = None"
  by code_simp+

lemma ring_ranges:
  "[Suc 0..<3] = [1, 2]"
  "[0..<6] = [0, 1, 2, 3, 4, 5]"
  by code_simp+

lemma twelve_times:
  "concat (replicate 12 xs) = xs @ xs @ xs @ xs @ xs @ xs @ xs @ xs @ xs @ xs @ xs @ xs"
  by (simp add: eval_nat_numeral)

lemma barPlace_phone: "normalizePhone ''+1 415-555-1234'' = ''+14155551234''"
  by code_simp

lemma enrich_over_budget:
  assumes "maxDailyCost rl \<le> estimateCost rl"
  shows "enrichPlaceDetails w now now' p (Some rl) = (emptied p, Some rl, [])"
  using assms by (simp add: enrichPlaceDetails_def checkLimits_throws Let_def)

text \<open>
  Claim C2 fails on the code. \<^verbatim>\<open>enrichPlaceDetails\<close> calls \<^verbatim>\<open>checkLimits\<close> inside its
  outer \<^verbatim>\<open>try\<close>, so the budget error ends in the \<^verbatim>\<open>catch\<close>: with a limiter at its
  ceiling the function returns the place with website, phone and contacts emptied and
  sends no request. In the run of \<open>tightInput\<close> with the one search term \<open>bar\<close> the
  ceiling is reached when the batch is enriched at the end of the city: the run does not
  stop, it saves the emptied lead, completes and resets the checkpoint.
\<close>

theorem budget_breach_absorbed:
  "enrichPlaceDetails barWeb 400 500 (newPlace ''bar'' barPlace) (Some spentLimiter)
     = (emptied (newPlace ''bar'' barPlace), Some spentLimiter, [])
   \<and> failure (runMain barWeb (tightInput\<lparr>searchTerms := [''bar'']\<rparr>) [''Austin, TX''] None [])
       = None
   \<and> dataset (finalState
        (runMain barWeb (tightInput\<lparr>searchTerms := [''bar'']\<rparr>) [''Austin, TX''] None []))
       = [(\<lparr>name = ''Bar One'', searchTerm = ''bar'', placeId = ''p1'', website = '''',
            phone = '''', emailList = []\<rparr>, ''Austin, TX'')]
   \<and> checkpointStore (finalState
        (runMain barWeb (tightInput\<lparr>searchTerms := [''bar'']\<rparr>) [''Austin, TX''] None []))
       = Some initialCheckpoint
   \<and> requests (finalState
        (runMain barWeb (tightInput\<lparr>searchTerms := [''bar'']\<rparr>) [''Austin, TX''] None []))
       = [GeocodeRequest ''Austin, TX'', SearchRequest (Some 0) 0 (0, 0) 0]"
proof -
  have "maxDailyCost spentLimiter \<le> estimateCost spentLimiter"
    by (rule checkLimits_at_0_05) (simp_all add: spentLimiter_def newAPIRateLimiter_def ceiling_0_05)
  then have e: "enrichPlaceDetails barWeb 400 500 (newPlace ''bar'' barPlace) (Some spentLimiter)
     = (emptied (newPlace ''bar'' barPlace), Some spentLimiter, [])"
    by (rule enrich_over_budget)
  have r: "runMain barWeb (tightInput\<lparr>searchTerms := [''bar'']\<rparr>) [''Austin, TX''] None []
     = Done (finalState
         (runMain barWeb (tightInput\<lparr>searchTerms := [''bar'']\<rparr>) [''Austin, TX''] None []))
        \<and> dataset (finalState
        (runMain barWeb (tightInput\<lparr>searchTerms := [''bar'']\<rparr>) [''Austin, TX''] None []))
       = [(\<lparr>name = ''Bar One'', searchTerm = ''bar'', placeId = ''p1'', website = '''',
            phone = '''', emailList = []\<rparr>, ''Austin, TX'')]
        \<and> checkpointStore (finalState
        (runMain barWeb (tightInput\<lparr>searchTerms := [''bar'']\<rparr>) [''Austin, TX''] None []))
       = Some initialCheckpoint
        \<and> requests (finalState
        (runMain barWeb (tightInput\<lparr>searchTerms := [''bar'']\<rparr>) [''Austin, TX''] None []))
       = [GeocodeRequest ''Austin, TX'', SearchRequest (Some 0) 0 (0, 0) 0]"
    by (simp add: run_defs example_defs budget_checks cities_are_no_coordinates barPlace_phone)
  then have "failure (runMain barWeb (tightInput\<lparr>searchTerms := [''bar'']\<rparr>)
                        [''Austin, TX''] None []) = None"
    by (metis failure.simps(1))
  with e r show ?thesis by (intro conjI) simp_all
qed

text \<open>
  Claim C3 fails on the code. After a search term the checkpoint is saved as
  (city, term + 1) while the places accepted for that term are still in \<^verbatim>\<open>batchLeads\<close>:
  the batch is saved only when it has 50 leads or at the end of the city. In the run of
  \<open>tightInput\<close> the term \<open>bar\<close> finds one place; the ceiling stops the run at the search
  for the second term, with the checkpoint store at (0, 1), the dataset empty and the
  place in the buffer. The restarted run (ceiling 20 dollars) skips the term \<open>bar\<close>, so
  the place is never saved.
\<close>

theorem checkpoint_past_unflushed_batch:
  "failure (runMain barWeb tightInput [''Austin, TX''] None []) = Some CostLimitReached
   \<and> checkpointStore (finalState (runMain barWeb tightInput [''Austin, TX''] None []))
       = Some \<lparr>processedCities = [], currentCityIndex = 0, currentSearchTermIndex = 1\<rparr>
   \<and> dataset (finalState (runMain barWeb tightInput [''Austin, TX''] None [])) = []
   \<and> map placeId (batchLeads (finalState (runMain barWeb tightInput [''Austin, TX''] None [])))
       = [''p1'']
   \<and> failure (runMain barWeb (tightInput\<lparr>dailyCostLimit := 20\<rparr>) [''Austin, TX'']
        (Some \<lparr>processedCities = [], currentCityIndex = 0, currentSearchTermIndex = 1\<rparr>) [])
       = None
   \<and> searchedTerms (finalState (runMain barWeb (tightInput\<lparr>dailyCostLimit := 20\<rparr>)
        [''Austin, TX'']
        (Some \<lparr>processedCities = [], currentCityIndex = 0, currentSearchTermIndex = 1\<rparr>) []))
       = [(Some 0, 1)]
   \<and> dataset (finalState (runMain barWeb (tightInput\<lparr>dailyCostLimit := 20\<rparr>)
        [''Austin, TX'']
        (Some \<lparr>processedCities = [], currentCityIndex = 0, currentSearchTermIndex = 1\<rparr>) []))
       = []"
  by (simp add: run_defs example_defs budget_checks cities_are_no_coordinates barPlace_phone)

text \<open>
  Claim C4 fails on the code when a city has more than one cell. The tests that skip
  finished work read the variable \<^verbatim>\<open>checkpoint\<close>, which \<^verbatim>\<open>saveCheckpoint\<close> overwrites
  after every term with the position of the city among the target centers and the next
  term. A run of \<open>wideInput\<close> over two cities restarted from the checkpoint (1, 1)
  searches term 1 in the first cell of city 1 and then both terms, term 0 included, in each
  of the other 12 cells. A run from the initial checkpoint searches both terms in the first
  cell of each city and skips all terms in the other 12 cells.
\<close>

theorem resume_reads_live_checkpoint:
  "searchedTerms (finalState (runMain silentWeb wideInput [''Austin, TX'', ''Boise, ID'']
        (Some \<lparr>processedCities = [0], currentCityIndex = 1, currentSearchTermIndex = 1\<rparr>) []))
     = (Some 1, 1) # concat (replicate 12 [(Some 1, 0), (Some 1, 1)])
   \<and> failure (runMain silentWeb wideInput [''Austin, TX'', ''Boise, ID''] None []) = None
   \<and> searchedTerms (finalState
        (runMain silentWeb wideInput [''Austin, TX'', ''Boise, ID''] None []))
     = [(Some 0, 0), (Some 0, 1), (Some 1, 0), (Some 1, 1)]"
  by (simp add: run_defs example_defs budget_checks cities_are_no_coordinates ring_ranges twelve_times)


end
